theory Spec2Isabelle
  imports Complex_Main "HOL-Library.Sublist" "HOL-Library.Multiset"
begin

section \<open>Numbers and text as the scoring code uses them\<close>

text \<open>
  The scoring subsystem is written in JavaScript. A JavaScript string is a sequence of
  UTF-16 code units; a \<^typ>\<open>string\<close> here is such a sequence with every code unit below
  256 (the Latin-1 range), one \<^typ>\<open>char\<close> per code unit. On these strings the
  whitespace class, \<open>trim\<close> and \<open>toLowerCase\<close> are as defined below, and lower-casing never
  leaves the range. Numbers are IEEE doubles; where a definition computes on them with
  exact real arithmetic, the text at the definition says why the result is the same.
\<close>

text \<open>\<open>const clamp = (value, min, max) => Math.min(max, Math.max(min, value))\<close>\<close>

definition clamp :: "real \<Rightarrow> real \<Rightarrow> real \<Rightarrow> real" where
  "clamp v lo hi = min hi (max lo v)"

text \<open>
  The class \<open>\s\<close> of a regular expression, which is also what \<open>trim()\<close> removes: among
  the code units below 256 these are U+0009 to U+000D, U+0020 and U+00A0.
\<close>

definition is_space :: "char \<Rightarrow> bool" where
  "is_space c = (c = CHR '' '' \<or> c = CHR 0x09 \<or> c = CHR 0x0A \<or> c = CHR 0x0B
     \<or> c = CHR 0x0C \<or> c = CHR 0x0D \<or> c = CHR 0xA0)"

text \<open>The class \<open>\d\<close>, which is \<open>[0-9]\<close>.\<close>

definition is_digit :: "char \<Rightarrow> bool" where
  "is_digit c = ((48::nat) \<le> of_char c \<and> of_char c \<le> (57::nat))"

definition digit_val :: "char \<Rightarrow> nat" where
  "digit_val c = of_char c - 48"

text \<open>\<open>Number(s)\<close> on a string of decimal digits.\<close>

definition digits_val :: "string \<Rightarrow> nat" where
  "digits_val ds = foldl (\<lambda>acc c. 10 * acc + digit_val c) 0 ds"

text \<open>
  \<open>toLowerCase()\<close> on one code unit below 256: the letters \<open>A..Z\<close> (65 to 90) and the
  letters U+00C0 to U+00DE (192 to 222) without the sign U+00D7 (215) move up by 32.
\<close>

definition to_lower :: "char \<Rightarrow> char" where
  "to_lower c =
     (if ((65::nat) \<le> of_char c \<and> of_char c \<le> (90::nat))
         \<or> ((192::nat) \<le> of_char c \<and> of_char c \<le> (222::nat) \<and> of_char c \<noteq> (215::nat))
      then char_of (of_char c + (32::nat))
      else c)"

text \<open>\<open>.replace(/\s+/g, " ")\<close>: every maximal run of whitespace becomes one space.\<close>

function collapse_ws :: "string \<Rightarrow> string" where
  "collapse_ws [] = []"
| "collapse_ws (c # cs) =
     (if is_space c then CHR '' '' # collapse_ws (dropWhile is_space cs)
      else c # collapse_ws cs)"
  by pat_completeness auto
termination
  by (relation "measure length") (auto simp: length_dropWhile_le less_Suc_eq_le)

definition trim :: "string \<Rightarrow> string" where
  "trim s = rev (dropWhile is_space (rev (dropWhile is_space s)))"

text \<open>
  \<open>normalizeText = String(value || "").toLowerCase().replace(/\s+/g, " ").trim()\<close>;
  an absent or empty value is the empty string.
\<close>

definition normalizeText :: "string \<Rightarrow> string" where
  "normalizeText v = trim (collapse_ws (map to_lower v))"

text \<open>\<open>text.includes(keyword)\<close>: the keyword occurs as a contiguous substring.\<close>

fun str_includes :: "string \<Rightarrow> string \<Rightarrow> bool" where
  "str_includes [] k = (k = [])"
| "str_includes (c # cs) k = (prefix k (c # cs) \<or> str_includes cs k)"

text \<open>Drops a literal from the front of a string, if it is there.\<close>

definition strip_lit :: "string \<Rightarrow> string \<Rightarrow> string option" where
  "strip_lit lit s = (if prefix lit s then Some (drop (length lit) s) else None)"

text \<open>
  An unanchored regular expression search: the match attempt \<open>m\<close> is tried at every start
  position from the left, the empty suffix included, and the first success is returned.
\<close>

fun search :: "(string \<Rightarrow> 'a option) \<Rightarrow> string \<Rightarrow> 'a option" where
  "search m [] = m []"
| "search m (c # cs) = (case m (c # cs) of Some r \<Rightarrow> Some r | None \<Rightarrow> search m cs)"

section \<open>Chipset scoring (compareScoring.js)\<close>

record chipset_rule =
  keyword :: string
  score :: real

definition DEFAULT_CHIPSET_RULES :: "chipset_rule list" where
  "DEFAULT_CHIPSET_RULES =
    [\<lparr>keyword = ''snapdragon 8 elite'', score = 100\<rparr>,
     \<lparr>keyword = ''snapdragon 8 gen 4'', score = 98\<rparr>,
     \<lparr>keyword = ''dimensity 9400'', score = 97\<rparr>,
     \<lparr>keyword = ''a18 pro'', score = 98\<rparr>,
     \<lparr>keyword = ''apple a18'', score = 98\<rparr>,
     \<lparr>keyword = ''snapdragon 8 gen 3'', score = 95\<rparr>,
     \<lparr>keyword = ''dimensity 9300'', score = 92\<rparr>,
     \<lparr>keyword = ''a17 pro'', score = 98\<rparr>,
     \<lparr>keyword = ''snapdragon 8 gen 2'', score = 89\<rparr>,
     \<lparr>keyword = ''dimensity 9200'', score = 89\<rparr>,
     \<lparr>keyword = ''apple a16'', score = 89\<rparr>,
     \<lparr>keyword = ''snapdragon 7 gen 3'', score = 75\<rparr>,
     \<lparr>keyword = ''dimensity 8300'', score = 75\<rparr>,
     \<lparr>keyword = ''snapdragon 7'', score = 72\<rparr>,
     \<lparr>keyword = ''dimensity 8'', score = 72\<rparr>,
     \<lparr>keyword = ''tensor g3'', score = 74\<rparr>,
     \<lparr>keyword = ''tensor g2'', score = 72\<rparr>,
     \<lparr>keyword = ''snapdragon 6'', score = 62\<rparr>,
     \<lparr>keyword = ''dimensity 7'', score = 62\<rparr>,
     \<lparr>keyword = ''exynos 13'', score = 62\<rparr>,
     \<lparr>keyword = ''snapdragon 4'', score = 50\<rparr>,
     \<lparr>keyword = ''helio'', score = 50\<rparr>,
     \<lparr>keyword = ''unisoc'', score = 50\<rparr>,
     \<lparr>keyword = ''exynos 8'', score = 50\<rparr>]"

text \<open>
  The loop over the keyword table: a rule with an empty keyword is skipped, the first rule
  whose keyword occurs in the text wins.
\<close>

fun tableHit :: "string \<Rightarrow> chipset_rule list \<Rightarrow> chipset_rule option" where
  "tableHit t [] = None"
| "tableHit t (r # rs) =
     (if keyword r = [] then tableHit t rs
      else if str_includes t (keyword r) then Some r
      else tableHit t rs)"

text \<open>\<open>/snapdragon\s*([0-9])\s*gen\s*([0-9]+)/i\<close>, tried at one start position.\<close>

definition snapdragonGenAt :: "string \<Rightarrow> (nat \<times> nat) option" where
  "snapdragonGenAt s =
     (case strip_lit ''snapdragon'' s of None \<Rightarrow> None
      | Some r1 \<Rightarrow>
        (case dropWhile is_space r1 of [] \<Rightarrow> None
         | d # r2 \<Rightarrow>
           if \<not> is_digit d then None
           else (case strip_lit ''gen'' (dropWhile is_space r2) of None \<Rightarrow> None
             | Some r3 \<Rightarrow>
               (let ds = takeWhile is_digit (dropWhile is_space r3)
                in if ds = [] then None else Some (digit_val d, digits_val ds)))))"

definition snapdragonGenMatch :: "string \<Rightarrow> (nat \<times> nat) option" where
  "snapdragonGenMatch t = search snapdragonGenAt t"

text \<open>\<open>/dimensity\s*([0-9]{4})/i\<close>, tried at one start position.\<close>

definition dimensityAt :: "string \<Rightarrow> nat option" where
  "dimensityAt s =
     (case strip_lit ''dimensity'' s of None \<Rightarrow> None
      | Some r1 \<Rightarrow>
        (let r2 = dropWhile is_space r1
         in if 4 \<le> length r2 \<and> list_all is_digit (take 4 r2)
            then Some (digits_val (take 4 r2)) else None))"

definition dimensityMatch :: "string \<Rightarrow> nat option" where
  "dimensityMatch t = search dimensityAt t"

text \<open>
  \<open>/apple\s*a([0-9]{2})|a([0-9]{2})\s*(pro|bionic)?/i\<close>, tried at one start position: the
  first alternative is preferred; the optional tail of the second captures nothing the
  score reads. The value is \<open>Number(m[1] || m[2])\<close>.
\<close>

definition twoDigits :: "string \<Rightarrow> nat option" where
  "twoDigits s =
     (if 2 \<le> length s \<and> list_all is_digit (take 2 s) then Some (digits_val (take 2 s))
      else None)"

definition appleAt :: "string \<Rightarrow> nat option" where
  "appleAt s =
     (case (case strip_lit ''apple'' s of None \<Rightarrow> None
            | Some r1 \<Rightarrow>
              (case strip_lit ''a'' (dropWhile is_space r1) of None \<Rightarrow> None
               | Some r2 \<Rightarrow> twoDigits r2)) of
        Some n \<Rightarrow> Some n
      | None \<Rightarrow> (case strip_lit ''a'' s of None \<Rightarrow> None | Some r \<Rightarrow> twoDigits r))"

definition appleMatch :: "string \<Rightarrow> nat option" where
  "appleMatch t = search appleAt t"

text \<open>
  \<open>scoreChipset(processorText, chipsetRules)\<close>, on a processor text that is a string (the
  caller passes the result of \<open>extractProcessorText\<close>). The captured digit strings are read
  as the numbers they denote. The arithmetic is exact on doubles whenever the value lies
  below the upper bound of its clamp; a longer generation number gives a larger double,
  \<open>Infinity\<close> included, and the clamp returns its upper bound for it as for the exact value.
  The score of a rule of a normalised table is a finite number.
\<close>

definition scoreChipset :: "string \<Rightarrow> chipset_rule list \<Rightarrow> real" where
  "scoreChipset processorText chipsetRules =
     (let t = normalizeText processorText in
      if t = [] then 45
      else case tableHit t chipsetRules of
        Some r \<Rightarrow> clamp (score r) 0 100
      | None \<Rightarrow>
        (case snapdragonGenMatch t of
          Some (series, gen) \<Rightarrow> clamp (50 + real series * 8 + real gen * 2) 52 96
        | None \<Rightarrow>
          (case dimensityMatch t of
            Some model \<Rightarrow>
              (if model \<ge> 9400 then 97
               else if model \<ge> 9300 then 92
               else if model \<ge> 8300 then 78
               else if model \<ge> 8200 then 74
               else if model \<ge> 7300 then 66
               else 58)
          | None \<Rightarrow>
            (case appleMatch t of
              Some chipNum \<Rightarrow> clamp (74 + (real chipNum - 14) * 4) 70 99
            | None \<Rightarrow>
              if str_includes t ''tensor'' then 74
              else if str_includes t ''exynos'' then 68
              else 60))))"

section \<open>IEEE doubles\<close>

text \<open>
  A JavaScript number: a finite double, embedded as the real it denotes (the two zeros
  as 0), \<open>NaN\<close>, or one of the two infinities.
\<close>

datatype jsnumber = Finite real | NaN | PosInfinity | NegInfinity

text \<open>
  Rounding to the nearest double, a tie going to the even significand. A double has a
  significand of 53 bits and an exponent of at least -1022: below \<open>2^-1022\<close> the doubles
  are the multiples of \<open>2^-1074\<close>. \<open>fl64\<close> rounds without a bound on the exponent from
  above; \<open>dbl\<close> adds the overflow to an infinity, which happens when the rounded value
  exceeds the greatest double, \<open>Number.MAX_VALUE\<close>.
\<close>

definition round_even :: "real \<Rightarrow> int" where
  "round_even m =
     (let f = \<lfloor>m\<rfloor>; d = m - real_of_int f
      in if d < 1 / 2 then f else if 1 / 2 < d then f + 1 else if even f then f else f + 1)"

definition fl64 :: "real \<Rightarrow> real" where
  "fl64 x =
     (if x = 0 then 0
      else (let e = max \<lfloor>log 2 \<bar>x\<bar>\<rfloor> (- 1022);
                u = 2 powr (real_of_int e - 52)
            in real_of_int (round_even (x / u)) * u))"

definition MAX_VALUE :: real where
  "MAX_VALUE = (2 ^ 53 - 1) * 2 ^ 971"

definition dbl :: "real \<Rightarrow> jsnumber" where
  "dbl x =
     (let y = fl64 x
      in if MAX_VALUE < y then PosInfinity
         else if y < - MAX_VALUE then NegInfinity
         else Finite y)"

text \<open>\<open>a + b\<close> on numbers.\<close>

fun js_add :: "jsnumber \<Rightarrow> jsnumber \<Rightarrow> jsnumber" where
  "js_add (Finite a) (Finite b) = dbl (a + b)"
| "js_add NaN y = NaN"
| "js_add x NaN = NaN"
| "js_add PosInfinity NegInfinity = NaN"
| "js_add NegInfinity PosInfinity = NaN"
| "js_add PosInfinity y = PosInfinity"
| "js_add x PosInfinity = PosInfinity"
| "js_add NegInfinity y = NegInfinity"
| "js_add x NegInfinity = NegInfinity"

text \<open>The sum of a loop \<open>total += x\<close> that starts at 0, and of \<open>reduce((sum, n) => sum + n, 0)\<close>.\<close>

definition js_sum :: "real list \<Rightarrow> jsnumber" where
  "js_sum xs = foldl (\<lambda>acc x. js_add acc (Finite x)) (Finite 0) xs"

text \<open>\<open>n <= 0\<close> and \<open>n > c\<close> on a number \<open>n\<close>; every comparison with \<open>NaN\<close> is false.\<close>

definition js_le0 :: "jsnumber \<Rightarrow> bool" where
  "js_le0 n = (case n of Finite x \<Rightarrow> x \<le> 0 | NegInfinity \<Rightarrow> True | _ \<Rightarrow> False)"

definition js_gt :: "jsnumber \<Rightarrow> real \<Rightarrow> bool" where
  "js_gt n c = (case n of Finite x \<Rightarrow> c < x | PosInfinity \<Rightarrow> True | _ \<Rightarrow> False)"

section \<open>Freshness decay (hookScore.js)\<close>




text \<open>Division in the SQL of the recompute queries: a zero divisor raises an error.\<close>

definition sql_div :: "real \<Rightarrow> real \<Rightarrow> real option" where
  "sql_div a b = (if b = 0 then None else Some (a / b))"


section \<open>Weight normalisation of the recompute jobs (hookScore.js, trendingScore.js)\<close>

text \<open>
  A weight set supplied by the caller: \<open>None\<close> for a key the object does not set,
  \<open>Some n\<close> for a key set to a value \<open>v\<close> with \<open>Number(v) = n\<close>. The spread
  \<open>{ ...defaults, ...(weights || {}) }\<close> reads the default where the key is not set. A
  numeric literal of the source is the double nearest to it.
\<close>

type_synonym weight_opts = "string \<Rightarrow> jsnumber option"

definition merged :: "weight_opts \<Rightarrow> string \<Rightarrow> real \<Rightarrow> jsnumber" where
  "merged weights key defaultValue =
     (case weights key of None \<Rightarrow> Finite defaultValue | Some n \<Rightarrow> n)"

definition DEFAULT_BUYER_INTENT_WEIGHTS :: "(string \<times> real) list" where
  "DEFAULT_BUYER_INTENT_WEIGHTS =
     [(''views'', fl64 0.55), (''compares'', fl64 0.3), (''wishlist'', fl64 0.15)]"

definition DEFAULT_TREND_VELOCITY_WEIGHTS :: "(string \<times> real) list" where
  "DEFAULT_TREND_VELOCITY_WEIGHTS = [(''views'', fl64 0.7), (''compares'', fl64 0.3)]"

definition DEFAULT_HOOK_SCORE_WEIGHTS :: "(string \<times> real) list" where
  "DEFAULT_HOOK_SCORE_WEIGHTS =
     [(''buyer_intent'', fl64 0.5), (''trend_velocity'', fl64 0.3), (''freshness'', fl64 0.2)]"

text \<open>
  \<open>toNonNegativeNumber(value, fallback)\<close>, on \<open>parsed = Number(value)\<close>: the fallback when
  \<open>parsed\<close> is not finite or is negative.
\<close>

definition toNonNegativeNumber :: "jsnumber \<Rightarrow> real \<Rightarrow> real" where
  "toNonNegativeNumber parsed fallback =
     (case parsed of Finite x \<Rightarrow> if x < 0 then fallback else x | _ \<Rightarrow> fallback)"

text \<open>The result object of hookScore.js: the weights by key, and \<open>total\<close>.\<close>

record hook_weights =
  hw_entries :: "(string \<times> real) list"
  hw_total :: jsnumber

text \<open>The loop body of hookScore.js \<open>normalizeWeights\<close>: \<open>normalized[key] = safe\<close>.\<close>

definition hook_sanitized :: "weight_opts \<Rightarrow> (string \<times> real) list \<Rightarrow> (string \<times> real) list" where
  "hook_sanitized weights defaults =
     map (\<lambda>(key, defaultValue).
            (key, toNonNegativeNumber (merged weights key defaultValue) defaultValue)) defaults"

text \<open>
  hookScore.js \<open>normalizeWeights(weights, defaults)\<close>. \<open>total\<close> is the sum the loop
  accumulates in doubles; \<open>fallbackTotal || 1\<close> is 1 when \<open>fallbackTotal\<close> is 0 or \<open>NaN\<close>.
\<close>

definition hook_normalizeWeights :: "weight_opts \<Rightarrow> (string \<times> real) list \<Rightarrow> hook_weights" where
  "hook_normalizeWeights weights defaults =
     (let normalized = hook_sanitized weights defaults;
          total = js_sum (map snd normalized)
      in if js_le0 total
         then (let fallbackTotal = js_sum (map snd defaults)
               in \<lparr>hw_entries = defaults,
                   hw_total = (if fallbackTotal = Finite 0 \<or> fallbackTotal = NaN then Finite 1
                               else fallbackTotal)\<rparr>)
         else \<lparr>hw_entries = normalized, hw_total = total\<rparr>)"

text \<open>
  trendingScore.js: the result object of \<open>normalizeWeights(weights)\<close>, the constant
  \<open>{ ...DEFAULT_WEIGHTS, total: 1 }\<close> that it returns for a sum that is not positive, and
  \<open>safe\<close>.
\<close>

record trending_weights =
  tw_views :: real
  tw_compares :: real
  tw_velocity :: real
  tw_total :: jsnumber

definition DEFAULT_WEIGHTS :: trending_weights where
  "DEFAULT_WEIGHTS =
     \<lparr>tw_views = fl64 0.4, tw_compares = fl64 0.4, tw_velocity = fl64 0.2, tw_total = Finite 1\<rparr>"

definition safe :: "jsnumber \<Rightarrow> real" where
  "safe n = (case n of Finite x \<Rightarrow> if x \<ge> 0 then x else 0 | _ \<Rightarrow> 0)"

definition trending_normalizeWeights :: "weight_opts \<Rightarrow> trending_weights" where
  "trending_normalizeWeights weights =
     (let vw = safe (merged weights ''views'' (tw_views DEFAULT_WEIGHTS));
          cw = safe (merged weights ''compares'' (tw_compares DEFAULT_WEIGHTS));
          velw = safe (merged weights ''velocity'' (tw_velocity DEFAULT_WEIGHTS));
          total = js_add (js_add (Finite vw) (Finite cw)) (Finite velw)
      in if js_le0 total then DEFAULT_WEIGHTS
         else \<lparr>tw_views = vw, tw_compares = cw, tw_velocity = velw, tw_total = total\<rparr>)"

text \<open>A weight the claims call negative or non-finite.\<close>

definition invalid_weight :: "jsnumber \<Rightarrow> bool" where
  "invalid_weight n = (case n of Finite x \<Rightarrow> x < 0 | _ \<Rightarrow> True)"

section \<open>The composite of the trending query (trendingScore.js)\<close>

text \<open>
  The query step \<open>normalized\<close>:
  \<open>CASE WHEN max > 0 THEN (raw::numeric / max::numeric) * 100 ELSE 0 END\<close>, where \<open>max\<close> is
  the greatest raw value of the product type.
\<close>

definition normalize_to_max :: "real \<Rightarrow> real \<Rightarrow> real" where
  "normalize_to_max raw mx = (if mx > 0 then (raw / mx) * 100 else 0)"

text \<open>
  The query step \<open>scored\<close>:
  \<open>((norm_views * ${weights.views}) + (norm_compares * ${weights.compares}) +
  (norm_velocity * ${weights.velocity})) / ${weightTotal}\<close>. The template literal pastes
  each weight and the divisor as the decimal text of the double, and the query computes
  on these decimals in the exact arithmetic of \<open>numeric\<close>; the arguments \<open>views\<close>,
  \<open>compares\<close>, \<open>velocity\<close> and \<open>weightTotal\<close> are the numbers the pasted texts denote.
\<close>

definition trending_score :: "real \<Rightarrow> real \<Rightarrow> real \<Rightarrow> real \<Rightarrow> real \<Rightarrow> real \<Rightarrow> real \<Rightarrow> real option" where
  "trending_score norm_views norm_compares norm_velocity views compares velocity weightTotal =
     sql_div ((norm_views * views) + (norm_compares * compares) + (norm_velocity * velocity))
       weightTotal"

section \<open>Loosely typed values (compareScoring.js)\<close>

text \<open>
  Devices and scoring configurations are JSON values as \<open>JSON.parse\<close> delivers them from
  a request or a database column, plus \<open>undefined\<close> for what is absent. An object lists
  each of its keys once; being parsed from JSON text, it has no property that is a
  function and no prototype but \<open>Object.prototype\<close>.
\<close>

datatype json =
    JUndefined
  | JNull
  | JBool bool
  | JNum jsnumber
  | JStr string
  | JArr "json list"
  | JObj "(string \<times> json) list"

text \<open>
  The built-ins of the language the scoring code calls and the model does not define:
  \<open>Number.prototype.toString\<close> on a finite number, the conversion of a string to a
  number behind \<open>Number(string)\<close>, \<open>String.prototype.localeCompare\<close>, and the number of
  arguments the engine accepts in one call. Every definition that depends on one of them
  takes the record as its argument \<open>env\<close>.
\<close>

record js_env =
  numToString :: "real \<Rightarrow> string"
  stringToNumber :: "string \<Rightarrow> jsnumber"
  localeCompare :: "string \<Rightarrow> string \<Rightarrow> int"
  argumentLimit :: nat

text \<open>
  The exceptions of this module: the \<open>TypeError\<close> of a conversion to a primitive value,
  and the \<open>RangeError\<close> of a call with more arguments than the engine accepts.
\<close>

datatype js_error = TypeError | RangeError

text \<open>The rest of a function after a call that can throw.\<close>

definition andThen :: "'e + 'a \<Rightarrow> ('a \<Rightarrow> 'e + 'b) \<Rightarrow> 'e + 'b" where
  "andThen m f = (case m of Inl e \<Rightarrow> Inl e | Inr v \<Rightarrow> f v)"

text \<open>Truthiness: \<open>!value\<close> is its negation.\<close>

fun truthy :: "json \<Rightarrow> bool" where
  "truthy JUndefined = False"
| "truthy JNull = False"
| "truthy (JBool b) = b"
| "truthy (JNum n) = (n \<noteq> Finite 0 \<and> n \<noteq> NaN)"
| "truthy (JStr s) = (s \<noteq> [])"
| "truthy (JArr xs) = True"
| "truthy (JObj kvs) = True"

text \<open>\<open>a || b\<close> and \<open>a ?? b\<close>.\<close>

definition js_or :: "json \<Rightarrow> json \<Rightarrow> json" where
  "js_or a b = (if truthy a then a else b)"

definition js_nullish :: "json \<Rightarrow> json \<Rightarrow> json" where
  "js_nullish a b = (if a = JUndefined \<or> a = JNull then b else a)"

text \<open>
  Property access \<open>value.key\<close>, \<open>value[key]\<close> and \<open>value?.key\<close> for the keys read below
  (the five weight keys, \<open>price_value\<close>, \<open>name\<close>, \<open>model\<close>): none of them is a property
  of \<open>Object.prototype\<close>, of an array, a string, a number or a boolean.
\<close>

fun getprop :: "json \<Rightarrow> string \<Rightarrow> json" where
  "getprop (JObj kvs) k = (case map_of kvs k of Some v \<Rightarrow> v | None \<Rightarrow> JUndefined)"
| "getprop v k = JUndefined"

text \<open>
  \<open>String(value)\<close>. An object is converted by its \<open>toString\<close>, then its \<open>valueOf\<close>: an
  object with an own property \<open>toString\<close> has a \<open>toString\<close> that is not callable, the
  \<open>valueOf\<close> it has or inherits returns no primitive value, and the conversion throws a
  \<open>TypeError\<close>; any other object prints as \<open>[object Object]\<close>. An array prints its
  elements joined by commas, \<open>null\<close> and \<open>undefined\<close> as the empty string, and throws when
  an element does.
\<close>

fun js_String :: "js_env \<Rightarrow> json \<Rightarrow> js_error + string"
  and join_comma :: "js_env \<Rightarrow> json list \<Rightarrow> js_error + string" where
  "js_String env JUndefined = Inr ''undefined''"
| "js_String env JNull = Inr ''null''"
| "js_String env (JBool b) = Inr (if b then ''true'' else ''false'')"
| "js_String env (JNum n) =
     Inr (case n of Finite x \<Rightarrow> numToString env x | NaN \<Rightarrow> ''NaN''
          | PosInfinity \<Rightarrow> ''Infinity'' | NegInfinity \<Rightarrow> ''-Infinity'')"
| "js_String env (JStr s) = Inr s"
| "js_String env (JArr xs) = join_comma env xs"
| "js_String env (JObj kvs) =
     (if ''toString'' \<in> set (map fst kvs) then Inl TypeError else Inr ''[object Object]'')"
| "join_comma env [] = Inr []"
| "join_comma env (x # xs) =
     (case (if x = JUndefined \<or> x = JNull then Inr [] else js_String env x) of
        Inl e \<Rightarrow> Inl e
      | Inr s \<Rightarrow>
          (if xs = [] then Inr s
           else case join_comma env xs of
             Inl e \<Rightarrow> Inl e
           | Inr t \<Rightarrow> Inr (s @ '','' @ t)))"

text \<open>
  \<open>/-?\d+(?:\.\d+)?/\<close> tried at one start position, and the decimal number the matched
  literal denotes.
\<close>

definition decimalAt :: "string \<Rightarrow> real option" where
  "decimalAt s =
     (let neg = (s \<noteq> [] \<and> hd s = CHR ''-'');
          r = (if neg then tl s else s);
          ds = takeWhile is_digit r;
          rest = drop (length ds) r;
          fs = (if rest \<noteq> [] \<and> hd rest = CHR ''.'' then takeWhile is_digit (tl rest) else [])
      in if ds = [] then None
         else Some ((if neg then -1 else 1)
                    * (real (digits_val ds) + real (digits_val fs) / 10 ^ length fs)))"

text \<open>
  \<open>toFiniteNumber\<close>: \<open>null\<close> for \<open>null\<close>, \<open>undefined\<close> and the empty string; a finite
  number as it is; otherwise \<open>parsed = Number(match[0])\<close> for the first decimal literal of
  \<open>String(value)\<close> with the commas removed, which is the double nearest to the literal,
  and \<open>null\<close> when there is no literal or \<open>parsed\<close> is not finite. It throws when
  \<open>String(value)\<close> does.
\<close>

definition toFiniteNumber :: "js_env \<Rightarrow> json \<Rightarrow> js_error + real option" where
  "toFiniteNumber env v =
     (if v = JUndefined \<or> v = JNull \<or> v = JStr [] then Inr None
      else case v of
        JNum (Finite x) \<Rightarrow> Inr (Some x)
      | _ \<Rightarrow>
        (case js_String env v of
           Inl e \<Rightarrow> Inl e
         | Inr s \<Rightarrow>
           Inr (case search decimalAt (filter (\<lambda>c. c \<noteq> CHR '','') s) of
                  None \<Rightarrow> None
                | Some q \<Rightarrow> (case dbl q of Finite parsed \<Rightarrow> Some parsed | _ \<Rightarrow> None))))"

text \<open>
  The device name of a ranking row: \<open>String(device?.name || device?.model || "Device")\<close>
  in the callback of \<open>devices.map\<close> of \<open>buildCompareRanking\<close>, which catches no exception.
\<close>

definition deviceNameOf :: "js_env \<Rightarrow> json \<Rightarrow> js_error + string" where
  "deviceNameOf env device =
     js_String env (js_or (js_or (getprop device ''name'') (getprop device ''model''))
                      (JStr ''Device''))"

section \<open>Weight normalisation of the compare engine (compareScoring.js)\<close>

definition WEIGHT_KEYS :: "string list" where
  "WEIGHT_KEYS = [''performance'', ''display'', ''camera'', ''battery'', ''priceValue'']"

text \<open>
  A weight vector is the list of its entries in the order of \<open>WEIGHT_KEYS\<close>; a constant
  is the double nearest to its literal.
\<close>

definition DEFAULT_COMPARE_WEIGHTS :: "(string \<times> real) list" where
  "DEFAULT_COMPARE_WEIGHTS =
     [(''performance'', fl64 0.36), (''display'', fl64 0.2), (''camera'', fl64 0.2),
      (''battery'', fl64 0.14), (''priceValue'', fl64 0.1)]"

text \<open>\<open>DEFAULT_COMPARE_WEIGHTS[key]\<close> for a key of \<open>WEIGHT_KEYS\<close>.\<close>

definition weight_of :: "(string \<times> real) list \<Rightarrow> string \<Rightarrow> real" where
  "weight_of ws key = (case map_of ws key of Some x \<Rightarrow> x | None \<Rightarrow> 0)"

text \<open>\<open>typeof value === "object"\<close> for a value that is not \<open>null\<close>.\<close>

definition is_object :: "json \<Rightarrow> bool" where
  "is_object v = (case v of JObj kvs \<Rightarrow> True | JArr xs \<Rightarrow> True | _ \<Rightarrow> False)"

text \<open>The body of the first loop of \<open>normalizeWeights\<close>: the raw weight of one key.\<close>

definition rawWeight :: "js_env \<Rightarrow> json \<Rightarrow> string \<Rightarrow> js_error + real" where
  "rawWeight env source key =
     (case toFiniteNumber env
             (js_nullish (getprop source key)
                (if key = ''priceValue'' then getprop source ''price_value'' else JNull)) of
        Inl e \<Rightarrow> Inl e
      | Inr (Some v) \<Rightarrow> Inr (if v \<ge> 0 then v else weight_of DEFAULT_COMPARE_WEIGHTS key)
      | Inr None \<Rightarrow> Inr (weight_of DEFAULT_COMPARE_WEIGHTS key))"

text \<open>The results of a loop in order, up to the first iteration that throws.\<close>

fun collect :: "('e + 'a) list \<Rightarrow> 'e + 'a list" where
  "collect [] = Inr []"
| "collect (x # xs) =
     (case x of
        Inl e \<Rightarrow> Inl e
      | Inr v \<Rightarrow> (case collect xs of Inl e \<Rightarrow> Inl e | Inr vs \<Rightarrow> Inr (v # vs)))"

text \<open>
  \<open>WEIGHT_KEYS.reduce((acc, key) => acc + normalized[key], 0)\<close> on components that lie
  between 0 and 1: no sum of five of them overflows.
\<close>

definition reduce_sum :: "real list \<Rightarrow> real" where
  "reduce_sum xs = foldl (\<lambda>acc x. fl64 (acc + x)) 0 xs"

text \<open>
  The residual adjustment:
  \<open>normalized[WEIGHT_KEYS[0]] = clamp(normalized[WEIGHT_KEYS[0]] + (1 - sum), 0, 1)\<close>.
\<close>

fun adjustFirst :: "real \<Rightarrow> real list \<Rightarrow> real list" where
  "adjustFirst s [] = []"
| "adjustFirst s (v # rest) = clamp (fl64 (v + fl64 (1 - s))) 0 1 # rest"

text \<open>
  \<open>normalizeWeights\<close> from the line \<open>let total = ...\<close> on, on the raw weights in key
  order. The raw weights are finite doubles that are not negative: their sum can
  overflow to \<open>Infinity\<close>, which exceeds 1.5, and the quotients \<open>raw[key] / 100\<close> and
  \<open>raw[key] / total\<close> cannot.
\<close>

definition normalizeRaw :: "real list \<Rightarrow> real list" where
  "normalizeRaw raw0 =
     (let total0 = js_sum raw0;
          raw = (if js_gt total0 1.5 then map (\<lambda>v. fl64 (v / 100)) raw0 else raw0);
          total = (if js_gt total0 1.5 then js_sum raw else total0)
      in case total of
           Finite t \<Rightarrow>
             if t \<le> 0 then map snd DEFAULT_COMPARE_WEIGHTS
             else
               (let normalized = map (\<lambda>v. clamp (fl64 (v / t)) 0 1) raw;
                    s = reduce_sum normalized
                in if s > 0 \<and> s \<noteq> 1 then adjustFirst s normalized else normalized)
         | _ \<Rightarrow> map snd DEFAULT_COMPARE_WEIGHTS)"

text \<open>\<open>normalizeWeights(input)\<close> of compareScoring.js.\<close>

definition normalizeWeights :: "js_env \<Rightarrow> json \<Rightarrow> js_error + (string \<times> real) list" where
  "normalizeWeights env input =
     (let source = (if truthy input \<and> is_object input then input else JObj [])
      in case collect (map (rawWeight env source) WEIGHT_KEYS) of
           Inl e \<Rightarrow> Inl e
         | Inr raw \<Rightarrow> Inr (zip WEIGHT_KEYS (normalizeRaw raw)))"

section \<open>The order of the ranking (compareScoring.js)\<close>



















section \<open>The lock protocol of the recompute jobs (hookScore.js, trendingScore.js)\<close>

text \<open>
  \<open>recomputeProductDynamicScoreByType\<close> and \<open>recomputeProductTrendingScores\<close> share one
  skeleton. After \<open>const client = await db.connect()\<close> and \<open>let locked = false\<close>:

  \<^item> in the \<open>try\<close> block, \<open>await client.query("SELECT pg_try_advisory_lock($1) AS locked")\<close>
    sets \<open>locked\<close>; when it is false the function returns
    \<open>{ ok: true, skipped: true, reason: "lock_unavailable", updated: 0 }\<close>; else it awaits
    the scoring statement (the \<open>INSERT ... ON CONFLICT ... DO UPDATE\<close>) and returns
    \<open>{ ok: true, skipped: false, updated: result.rowCount || 0 }\<close>;
  \<^item> the \<open>finally\<close> block awaits \<open>pg_advisory_unlock($1)\<close> when \<open>locked\<close> is true, ignoring
    an error of that statement, and releases the client.

  The hook-score result has the field \<open>product_type\<close> too, and both results of an update
  the field \<open>days\<close>.
\<close>

type_synonym session = nat

text \<open>
  The database as the protocol sees it: the advisory lock of the key, which is free or
  held by one session a number of times, and the sessions whose scoring statement has
  run, in order. A client is one session.
\<close>

record database =
  advisory_lock :: "(session \<times> nat) option"
  score_writes :: "session list"

text \<open>
  PostgreSQL's \<open>pg_try_advisory_lock\<close> and \<open>pg_advisory_unlock\<close> for a session-level
  lock, issued by the session \<open>s\<close>: the first takes the lock unless another session holds
  it, once more when \<open>s\<close> holds it already, and answers whether it did; the second gives
  back one hold of \<open>s\<close>.
\<close>

definition pg_try_advisory_lock :: "session \<Rightarrow> database \<Rightarrow> bool \<times> database" where
  "pg_try_advisory_lock s d =
     (case advisory_lock d of
        None \<Rightarrow> (True, d\<lparr>advisory_lock := Some (s, 1)\<rparr>)
      | Some (h, k) \<Rightarrow>
          if h = s then (True, d\<lparr>advisory_lock := Some (s, k + 1)\<rparr>) else (False, d))"

definition pg_advisory_unlock :: "session \<Rightarrow> database \<Rightarrow> database" where
  "pg_advisory_unlock s d =
     (case advisory_lock d of
        None \<Rightarrow> d
      | Some (h, k) \<Rightarrow>
          if h = s then d\<lparr>advisory_lock := (if k \<le> 1 then None else Some (s, k - 1))\<rparr>
          else d)"

text \<open>The result object of an invocation that returns.\<close>

record recompute_result =
  ok :: bool
  skipped :: bool
  reason :: "string option"
  updated :: nat

text \<open>
  Where an invocation stands between two awaits: connected; holding the lock before the
  scoring statement; in the \<open>finally\<close> block after the scoring statement has failed or
  after it has returned its row count; or finished, with a result or an exception.
\<close>

datatype phase = Connected | Locked | Failing | Scored nat | Returned recompute_result | Thrown

record invocation =
  session_of :: session
  phase :: phase

text \<open>
  One statement of an invocation, as one atomic step of the database: \<open>answered\<close> tells
  whether the database answers the statement or the statement fails, \<open>rowCount\<close> is the
  number of rows the scoring statement writes. A failed statement changes nothing in
  the database. A finished invocation issues no statement.
\<close>

definition step :: "bool \<Rightarrow> nat \<Rightarrow> database \<Rightarrow> invocation \<Rightarrow> database \<times> invocation" where
  "step answered rowCount d iv =
     (case phase iv of
        Connected \<Rightarrow>
          if \<not> answered then (d, iv\<lparr>phase := Thrown\<rparr>)
          else (let (locked, d') = pg_try_advisory_lock (session_of iv) d
                in if \<not> locked
                   then (d', iv\<lparr>phase := Returned \<lparr>ok = True, skipped = True,
                                     reason = Some ''lock_unavailable'', updated = 0\<rparr>\<rparr>)
                   else (d', iv\<lparr>phase := Locked\<rparr>))
      | Locked \<Rightarrow>
          if answered
          then (d\<lparr>score_writes := score_writes d @ [session_of iv]\<rparr>,
                iv\<lparr>phase := Scored rowCount\<rparr>)
          else (d, iv\<lparr>phase := Failing\<rparr>)
      | Failing \<Rightarrow>
          (if answered then pg_advisory_unlock (session_of iv) d else d,
           iv\<lparr>phase := Thrown\<rparr>)
      | Scored n \<Rightarrow>
          (if answered then pg_advisory_unlock (session_of iv) d else d,
           iv\<lparr>phase := Returned \<lparr>ok = True, skipped = False, reason = None, updated = n\<rparr>\<rparr>)
      | Returned r \<Rightarrow> (d, iv)
      | Thrown \<Rightarrow> (d, iv))"

text \<open>
  Two invocations for the same lock key in flight together: the statements of the two
  interleave in any order, one statement at a time.
\<close>

datatype who = First | Second

record system =
  database_of :: database
  first_inv :: invocation
  second_inv :: invocation

definition step_system :: "who \<times> bool \<times> nat \<Rightarrow> system \<Rightarrow> system" where
  "step_system e s =
     (case e of
        (First, answered, rowCount) \<Rightarrow>
          (let (d, iv) = step answered rowCount (database_of s) (first_inv s)
           in s\<lparr>database_of := d, first_inv := iv\<rparr>)
      | (Second, answered, rowCount) \<Rightarrow>
          (let (d, iv) = step answered rowCount (database_of s) (second_inv s)
           in s\<lparr>database_of := d, second_inv := iv\<rparr>))"

definition run :: "(who \<times> bool \<times> nat) list \<Rightarrow> system \<Rightarrow> system" where
  "run es s = foldl (\<lambda>s e. step_system e s) s es"

text \<open>Two invocations that have connected, in sessions \<open>a\<close> and \<open>b\<close>, and a free lock.\<close>

definition start :: "session \<Rightarrow> session \<Rightarrow> system" where
  "start a b =
     \<lparr>database_of = \<lparr>advisory_lock = None, score_writes = []\<rparr>,
      first_inv = \<lparr>session_of = a, phase = Connected\<rparr>,
      second_inv = \<lparr>session_of = b, phase = Connected\<rparr>\<rparr>"

text \<open>An invocation between taking the lock and the end of its \<open>finally\<close> block.\<close>

definition in_locked_section :: "invocation \<Rightarrow> bool" where
  "in_locked_section iv =
     (case phase iv of Locked \<Rightarrow> True | Failing \<Rightarrow> True | Scored n \<Rightarrow> True | _ \<Rightarrow> False)"

text \<open>An invocation that has returned reporting \<open>skipped\<close>, and one that has returned an update.\<close>

definition reports_skipped :: "invocation \<Rightarrow> bool" where
  "reports_skipped iv =
     (phase iv = Returned \<lparr>ok = True, skipped = True, reason = Some ''lock_unavailable'',
                            updated = 0\<rparr>)"

definition reports_update :: "invocation \<Rightarrow> bool" where
  "reports_update iv =
     (case phase iv of Returned r \<Rightarrow> ok r \<and> \<not> skipped r | _ \<Rightarrow> False)"

text \<open>
  An invocation that is past its lock statement without having been turned away, one
  whose scoring statement has been answered, and the invariant of two invocations \<open>x\<close>
  and \<open>y\<close> in different sessions: whoever is in its locked section holds the lock, the
  holder of the lock is past its lock statement, an invocation is turned away only by
  one that got past its lock statement, and an invocation has written exactly when its
  scoring statement has been answered.
\<close>

definition past_lock :: "invocation \<Rightarrow> bool" where
  "past_lock iv = (phase iv \<noteq> Connected \<and> \<not> reports_skipped iv)"

definition has_scored :: "invocation \<Rightarrow> bool" where
  "has_scored iv = (case phase iv of Scored n \<Rightarrow> True | Returned r \<Rightarrow> \<not> skipped r | _ \<Rightarrow> False)"

definition side_invariant :: "database \<Rightarrow> invocation \<Rightarrow> invocation \<Rightarrow> bool" where
  "side_invariant d x y =
     ((in_locked_section x \<longrightarrow> advisory_lock d = Some (session_of x, 1))
      \<and> (advisory_lock d = Some (session_of x, 1) \<longrightarrow> past_lock x)
      \<and> (reports_skipped x \<longrightarrow> past_lock y)
      \<and> (session_of x \<in> set (score_writes d) \<longleftrightarrow> has_scored x)
      \<and> (\<forall>r. phase x = Returned r \<longrightarrow> reports_skipped x \<or> (ok r \<and> \<not> skipped r)))"

definition pair_invariant :: "database \<Rightarrow> invocation \<Rightarrow> invocation \<Rightarrow> bool" where
  "pair_invariant d x y =
     (session_of x \<noteq> session_of y
      \<and> side_invariant d x y \<and> side_invariant d y x
      \<and> (advisory_lock d = None \<or> advisory_lock d = Some (session_of x, 1)
          \<or> advisory_lock d = Some (session_of y, 1))
      \<and> distinct (score_writes d))"

definition lock_invariant :: "system \<Rightarrow> bool" where
  "lock_invariant s = pair_invariant (database_of s) (first_inv s) (second_inv s)"

section \<open>Properties of the chipset scorer\<close>

text \<open>
  Claim C3. Under the default keyword table the text "Snapdragon 8 Gen 3" scores 95, the
  score of the table entry \<open>snapdragon 8 gen 3\<close> that is the first to occur in it.
  "Snapdragon 8 Gen 5" hits no table entry; the Snapdragon pattern reads series 8 and
  generation 5 from it, and the score is \<open>clamp(50 + 8*8 + 5*2, 52, 96) = 96\<close>.
\<close>

theorem scoreChipset_snapdragon_examples:
  "scoreChipset ''Snapdragon 8 Gen 3'' DEFAULT_CHIPSET_RULES = 95
   \<and> tableHit (normalizeText ''Snapdragon 8 Gen 3'') DEFAULT_CHIPSET_RULES
       = Some \<lparr>keyword = ''snapdragon 8 gen 3'', score = 95\<rparr>
   \<and> scoreChipset ''Snapdragon 8 Gen 5'' DEFAULT_CHIPSET_RULES = 96
   \<and> tableHit (normalizeText ''Snapdragon 8 Gen 5'') DEFAULT_CHIPSET_RULES = None
   \<and> snapdragonGenMatch (normalizeText ''Snapdragon 8 Gen 5'') = Some (8, 5)
   \<and> clamp (50 + 8 * 8 + 5 * 2) 52 96 = 96"
  by code_simp

text \<open>
  Claim C4, as stated, fails for empty or absent text: nothing matches the empty text, and
  its score is the guard's 45, not 60.
\<close>

theorem scoreChipset_empty_text_counterexample:
  "tableHit (normalizeText '''') DEFAULT_CHIPSET_RULES = None
   \<and> snapdragonGenMatch (normalizeText '''') = None
   \<and> dimensityMatch (normalizeText '''') = None
   \<and> appleMatch (normalizeText '''') = None
   \<and> \<not> str_includes (normalizeText '''') ''tensor''
   \<and> \<not> str_includes (normalizeText '''') ''exynos''
   \<and> scoreChipset '''' DEFAULT_CHIPSET_RULES = 45
   \<and> scoreChipset '''' DEFAULT_CHIPSET_RULES \<noteq> 60"
  by code_simp

text \<open>
  Claim C4, amended. A text that is empty after normalisation (absent, empty or only
  whitespace, the no-break space U+00A0 included) scores 45 under every table. A text
  that is not empty after normalisation, that no table entry matches and that none of the
  heuristics matches (Snapdragon series and generation, Dimensity model, Apple A-chip,
  "tensor", "exynos") scores 60.
\<close>

theorem scoreChipset_neutral:
  "(normalizeText t = [] \<longrightarrow> scoreChipset t rules = 45)
   \<and> (normalizeText t \<noteq> []
        \<and> tableHit (normalizeText t) rules = None
        \<and> snapdragonGenMatch (normalizeText t) = None
        \<and> dimensityMatch (normalizeText t) = None
        \<and> appleMatch (normalizeText t) = None
        \<and> \<not> str_includes (normalizeText t) ''tensor''
        \<and> \<not> str_includes (normalizeText t) ''exynos''
      \<longrightarrow> scoreChipset t rules = 60)"
  by (simp add: scoreChipset_def Let_def)

theorem scoreChipset_neutral_witness:
  "scoreChipset ''   '' DEFAULT_CHIPSET_RULES = 45
   \<and> scoreChipset [CHR 0xA0, CHR 0x09] DEFAULT_CHIPSET_RULES = 45
   \<and> scoreChipset ''Kirin 9000'' DEFAULT_CHIPSET_RULES = 60"
proof -
  have e: "normalizeText ''   '' = []" "normalizeText [CHR 0xA0, CHR 0x09] = []"
    by code_simp+
  have k: "normalizeText ''Kirin 9000'' \<noteq> []
        \<and> tableHit (normalizeText ''Kirin 9000'') DEFAULT_CHIPSET_RULES = None
        \<and> snapdragonGenMatch (normalizeText ''Kirin 9000'') = None
        \<and> dimensityMatch (normalizeText ''Kirin 9000'') = None
        \<and> appleMatch (normalizeText ''Kirin 9000'') = None
        \<and> \<not> str_includes (normalizeText ''Kirin 9000'') ''tensor''
        \<and> \<not> str_includes (normalizeText ''Kirin 9000'') ''exynos''"
    by code_simp
  from e k show ?thesis
    using scoreChipset_neutral [of "''   ''" DEFAULT_CHIPSET_RULES]
      scoreChipset_neutral [of "[CHR 0xA0, CHR 0x09]" DEFAULT_CHIPSET_RULES]
      scoreChipset_neutral [of "''Kirin 9000''" DEFAULT_CHIPSET_RULES]
    by blast
qed

text \<open>
  The no-break space separates words like any other whitespace, and the capital letters
  beyond \<open>Z\<close> are lower-cased.
\<close>

lemma normalizeText_latin1:
  "normalizeText (''Snapdragon'' @ [CHR 0xA0] @ ''8 Gen 3'') = ''snapdragon 8 gen 3''
   \<and> scoreChipset (''Snapdragon'' @ [CHR 0xA0] @ ''8 Gen 3'') DEFAULT_CHIPSET_RULES = 95
   \<and> normalizeText [CHR 0xC9, CHR 0xD7, CHR 0xDE] = [CHR 0xE9, CHR 0xD7, CHR 0xFE]"
  by code_simp


section \<open>Properties of the freshness decay\<close>











section \<open>Rounding to doubles\<close>

lemma fl64_eval:
  fixes k :: nat
  assumes "x = y" and "k \<le> 1074" and "2 ^ 52 \<le> \<bar>y\<bar> * 2 ^ k" and "\<bar>y\<bar> * 2 ^ k < 2 ^ 53"
    and "round_even (y * 2 ^ k) = r" and "real_of_int r / 2 ^ k = z"
  shows "fl64 x = z"
proof -
  have y0: "y \<noteq> 0" using assms(3) by auto
  have pos: "0 < \<bar>y\<bar> * 2 ^ k" using y0 by simp
  have p52: "(2::real) powr 52 = 2 ^ 52" and p53: "(2::real) powr 53 = 2 ^ 53"
    by (simp_all only: powr_numeral zero_le_numeral)
  have "log 2 (\<bar>y\<bar> * 2 ^ k) = log 2 \<bar>y\<bar> + real k"
    using y0 by (simp add: log_mult log_nat_power)
  moreover have "52 \<le> log 2 (\<bar>y\<bar> * 2 ^ k)"
    using assms(3) pos by (subst le_log_iff) (simp_all only: p52 one_less_numeral_iff semiring_norm)
  moreover have "log 2 (\<bar>y\<bar> * 2 ^ k) < 53"
    using assms(4) pos by (subst log_less_iff) (simp_all only: p53 one_less_numeral_iff semiring_norm)
  ultimately have fl: "\<lfloor>log 2 \<bar>y\<bar>\<rfloor> = 52 - int k"
    by (intro floor_unique) auto
  have mx: "max \<lfloor>log 2 \<bar>y\<bar>\<rfloor> (- 1022) = 52 - int k"
    unfolding fl using assms(2) by simp
  have u: "2 powr (real_of_int (max \<lfloor>log 2 \<bar>y\<bar>\<rfloor> (- 1022)) - 52) = 1 / 2 ^ k"
    unfolding mx by (simp add: powr_minus powr_realpow divide_inverse)
  show ?thesis
    using y0 assms(5,6) unfolding assms(1) fl64_def Let_def u by simp
qed

lemma fl64_eval_up:
  fixes k :: nat
  assumes "x = y" and "2 ^ 52 \<le> \<bar>y\<bar> / 2 ^ k" and "\<bar>y\<bar> / 2 ^ k < 2 ^ 53"
    and "round_even (y / 2 ^ k) = r" and "real_of_int r * 2 ^ k = z"
  shows "fl64 x = z"
proof -
  have y0: "y \<noteq> 0" using assms(2) by auto
  have pos: "0 < \<bar>y\<bar> / 2 ^ k" using y0 by simp
  have p52: "(2::real) powr 52 = 2 ^ 52" and p53: "(2::real) powr 53 = 2 ^ 53"
    by (simp_all only: powr_numeral zero_le_numeral)
  have "log 2 (\<bar>y\<bar> / 2 ^ k) = log 2 \<bar>y\<bar> - real k"
    using y0 by (simp add: log_divide log_nat_power)
  moreover have "52 \<le> log 2 (\<bar>y\<bar> / 2 ^ k)"
    using assms(2) pos by (subst le_log_iff) (simp_all only: p52 one_less_numeral_iff semiring_norm)
  moreover have "log 2 (\<bar>y\<bar> / 2 ^ k) < 53"
    using assms(3) pos by (subst log_less_iff) (simp_all only: p53 one_less_numeral_iff semiring_norm)
  ultimately have fl: "\<lfloor>log 2 \<bar>y\<bar>\<rfloor> = 52 + int k"
    by (intro floor_unique) auto
  have mx: "max \<lfloor>log 2 \<bar>y\<bar>\<rfloor> (- 1022) = 52 + int k"
    unfolding fl by simp
  have u: "2 powr (real_of_int (max \<lfloor>log 2 \<bar>y\<bar>\<rfloor> (- 1022)) - 52) = 2 ^ k"
    unfolding mx by (simp add: powr_realpow)
  show ?thesis
    using y0 assms(4,5) unfolding assms(1) fl64_def Let_def u by simp
qed

lemma fl64_0: "fl64 0 = 0"
  by (simp add: fl64_def)

lemma round_even_ge_floor: "\<lfloor>m\<rfloor> \<le> round_even m"
  by (simp add: round_even_def Let_def)

lemma fl64_nonneg:
  assumes "0 \<le> x"
  shows "0 \<le> fl64 x"
proof (cases "x = 0")
  case True
  then show ?thesis by (simp add: fl64_0)
next
  case False
  define u where "u = 2 powr (real_of_int (max \<lfloor>log 2 \<bar>x\<bar>\<rfloor> (- 1022)) - 52)"
  have u: "0 < u" by (simp add: u_def)
  have "0 \<le> x / u" using assms u by simp
  then have "0 \<le> \<lfloor>x / u\<rfloor>" by simp
  then have "0 \<le> round_even (x / u)"
    using round_even_ge_floor[of "x / u"] by linarith
  then have "0 \<le> real_of_int (round_even (x / u)) * u"
    using u by simp
  then show ?thesis
    using False by (simp add: fl64_def Let_def u_def)
qed

lemma dbl_nonneg:
  assumes "0 \<le> x"
  shows "(\<exists>t\<ge>0. dbl x = Finite t) \<or> dbl x = PosInfinity"
  using fl64_nonneg[OF assms] by (auto simp: dbl_def MAX_VALUE_def Let_def)

lemma js_add_nonneg:
  assumes "(\<exists>t\<ge>0. acc = Finite t) \<or> acc = PosInfinity" and "0 \<le> x"
  shows "(\<exists>t\<ge>0. js_add acc (Finite x) = Finite t) \<or> js_add acc (Finite x) = PosInfinity"
proof (cases "acc = PosInfinity")
  case True
  then show ?thesis by simp
next
  case False
  then obtain t where t: "0 \<le> t" "acc = Finite t"
    using assms(1) by auto
  have "0 \<le> t + x" using t(1) assms(2) by simp
  then show ?thesis
    unfolding t(2) using dbl_nonneg[of "t + x"] by simp
qed

lemma foldl_js_add_nonneg:
  assumes "\<forall>x \<in> set xs. 0 \<le> x" and "(\<exists>t\<ge>0. acc = Finite t) \<or> acc = PosInfinity"
  shows "(\<exists>t\<ge>0. foldl (\<lambda>acc x. js_add acc (Finite x)) acc xs = Finite t)
     \<or> foldl (\<lambda>acc x. js_add acc (Finite x)) acc xs = PosInfinity"
  using assms
proof (induction xs arbitrary: acc)
  case Nil
  then show ?case by simp
next
  case (Cons x xs)
  have "(\<exists>t\<ge>0. js_add acc (Finite x) = Finite t) \<or> js_add acc (Finite x) = PosInfinity"
    using Cons.prems by (intro js_add_nonneg) auto
  then show ?case
    using Cons.IH[of "js_add acc (Finite x)"] Cons.prems(1) by simp
qed

lemma js_sum_nonneg:
  assumes "\<forall>x \<in> set xs. 0 \<le> x"
  shows "(\<exists>t\<ge>0. js_sum xs = Finite t) \<or> js_sum xs = PosInfinity"
  unfolding js_sum_def by (rule foldl_js_add_nonneg[OF assms]) simp

lemma js_sum_zeros:
  assumes "\<forall>x \<in> set xs. x = 0"
  shows "js_sum xs = Finite 0"
proof -
  have "foldl (\<lambda>acc x. js_add acc (Finite x)) (Finite 0) xs = Finite 0"
    using assms by (induction xs) (simp_all add: dbl_def MAX_VALUE_def fl64_0)
  then show ?thesis by (simp add: js_sum_def)
qed

lemma not_le0_pos:
  assumes "(\<exists>t\<ge>0. n = Finite t) \<or> n = PosInfinity" and "\<not> js_le0 n"
  shows "(\<exists>t>0. n = Finite t) \<or> n = PosInfinity"
  using assms by (auto simp: js_le0_def)


lemma fl64_at_1: "fl64 (11 / 20) = 2476979795053773 / 4503599627370496"
  by (rule fl64_eval[where k=53 and y="11 / 20" and r="4953959590107546"])
    (simp_all add: round_even_def Let_def)

lemma fl64_at_2: "fl64 (3 / 10) = 5404319552844595 / 18014398509481984"
  by (rule fl64_eval[where k=54 and y="3 / 10" and r="5404319552844595"])
    (simp_all add: round_even_def Let_def)

lemma fl64_at_3: "fl64 (3 / 20) = 5404319552844595 / 36028797018963968"
  by (rule fl64_eval[where k=55 and y="3 / 20" and r="5404319552844595"])
    (simp_all add: round_even_def Let_def)

lemma fl64_at_4: "fl64 (7 / 10) = 3152519739159347 / 4503599627370496"
  by (rule fl64_eval[where k=53 and y="7 / 10" and r="6305039478318694"])
    (simp_all add: round_even_def Let_def)

lemma fl64_at_5: "fl64 (1 / 2) = 1 / 2"
  by (rule fl64_eval[where k=53 and y="1 / 2" and r="4503599627370496"])
    (simp_all add: round_even_def Let_def)

lemma fl64_at_6: "fl64 (1 / 5) = 3602879701896397 / 18014398509481984"
  by (rule fl64_eval[where k=55 and y="1 / 5" and r="7205759403792794"])
    (simp_all add: round_even_def Let_def)

lemma fl64_at_7: "fl64 (2 / 5) = 3602879701896397 / 9007199254740992"
  by (rule fl64_eval[where k=54 and y="2 / 5" and r="7205759403792794"])
    (simp_all add: round_even_def Let_def)

lemma fl64_at_8: "fl64 (2476979795053773 / 4503599627370496) = 2476979795053773 / 4503599627370496"
  by (rule fl64_eval[where k=53 and y="2476979795053773 / 4503599627370496" and r="4953959590107546"])
    (simp_all add: round_even_def Let_def)

lemma fl64_at_9: "fl64 (15312238733059687 / 18014398509481984) = 1914029841632461 / 2251799813685248"
  by (rule fl64_eval[where k=53 and y="15312238733059687 / 18014398509481984" and r="7656119366529844"])
    (simp_all add: round_even_def Let_def)

lemma fl64_at_10: "fl64 (36028797018963971 / 36028797018963968) = 1"
  by (rule fl64_eval[where k=52 and y="36028797018963971 / 36028797018963968" and r="4503599627370496"])
    (simp_all add: round_even_def Let_def)

lemma fl64_at_11: "fl64 (3152519739159347 / 4503599627370496) = 3152519739159347 / 4503599627370496"
  by (rule fl64_eval[where k=53 and y="3152519739159347 / 4503599627370496" and r="6305039478318694"])
    (simp_all add: round_even_def Let_def)

lemma fl64_at_12: "fl64 (18014398509481983 / 18014398509481984) = 1"
  by (rule fl64_eval[where k=53 and y="18014398509481983 / 18014398509481984" and r="9007199254740992"])
    (simp_all add: round_even_def Let_def)

lemma fl64_at_13: "fl64 (14411518807585587 / 18014398509481984) = 3602879701896397 / 4503599627370496"
  by (rule fl64_eval[where k=53 and y="14411518807585587 / 18014398509481984" and r="7205759403792794"])
    (simp_all add: round_even_def Let_def)

lemma fl64_at_14: "fl64 (18014398509481985 / 18014398509481984) = 1"
  by (rule fl64_eval[where k=52 and y="18014398509481985 / 18014398509481984" and r="4503599627370496"])
    (simp_all add: round_even_def Let_def)

lemma fl64_at_15: "fl64 (3602879701896397 / 9007199254740992) = 3602879701896397 / 9007199254740992"
  by (rule fl64_eval[where k=54 and y="3602879701896397 / 9007199254740992" and r="7205759403792794"])
    (simp_all add: round_even_def Let_def)

lemma fl64_at_16: "fl64 (10808639105689191 / 18014398509481984) = 1351079888211149 / 2251799813685248"
  by (rule fl64_eval[where k=53 and y="10808639105689191 / 18014398509481984" and r="5404319552844596"])
    (simp_all add: round_even_def Let_def)

lemma fl64_at_17: "fl64 (30) = 30"
  by (rule fl64_eval[where k=48 and y="30" and r="8444249301319680"])
    (simp_all add: round_even_def Let_def)

lemma fl64_at_18: "fl64 (545836274837304115 / 18014398509481984) = 8528691794332877 / 281474976710656"
  by (rule fl64_eval[where k=48 and y="545836274837304115 / 18014398509481984" and r="8528691794332877"])
    (simp_all add: round_even_def Let_def)

lemma fl64_at_19: "fl64 (3) = 3"
  by (rule fl64_eval[where k=51 and y="3" and r="6755399441055744"])
    (simp_all add: round_even_def Let_def)

lemma fl64_at_20: "fl64 (57646075230342349 / 18014398509481984) = 3602879701896397 / 1125899906842624"
  by (rule fl64_eval[where k=51 and y="57646075230342349 / 18014398509481984" and r="7205759403792794"])
    (simp_all add: round_even_def Let_def)

lemma fl64_at_21: "fl64 (3602879701896397 / 4503599627370496) = 3602879701896397 / 4503599627370496"
  by (rule fl64_eval[where k=53 and y="3602879701896397 / 4503599627370496" and r="7205759403792794"])
    (simp_all add: round_even_def Let_def)

lemma fl64_at_22: "fl64 (1 / 10) = 3602879701896397 / 36028797018963968"
  by (rule fl64_eval[where k=56 and y="1 / 10" and r="7205759403792794"])
    (simp_all add: round_even_def Let_def)

lemma fl64_at_23: "fl64 (3602879701896397 / 36028797018963968) = 3602879701896397 / 36028797018963968"
  by (rule fl64_eval[where k=56 and y="3602879701896397 / 36028797018963968" and r="7205759403792794"])
    (simp_all add: round_even_def Let_def)

lemma fl64_at_24: "fl64 (28823037615171173 / 36028797018963968) = 7205759403792793 / 9007199254740992"
  by (rule fl64_eval[where k=53 and y="28823037615171173 / 36028797018963968" and r="7205759403792793"])
    (simp_all add: round_even_def Let_def)

lemma fl64_at_25: "fl64 (7205759403792793 / 9007199254740992) = 7205759403792793 / 9007199254740992"
  by (rule fl64_eval[where k=53 and y="7205759403792793 / 9007199254740992" and r="7205759403792793"])
    (simp_all add: round_even_def Let_def)

lemma fl64_at_26: "fl64 (1) = 1"
  by (rule fl64_eval[where k=52 and y="1" and r="4503599627370496"])
    (simp_all add: round_even_def Let_def)

lemma fl64_at_27: "fl64 (6) = 6"
  by (rule fl64_eval[where k=50 and y="6" and r="6755399441055744"])
    (simp_all add: round_even_def Let_def)

lemma fl64_at_28: "fl64 (7) = 7"
  by (rule fl64_eval[where k=50 and y="7" and r="7881299347898368"])
    (simp_all add: round_even_def Let_def)

lemma fl64_at_29: "fl64 (8) = 8"
  by (rule fl64_eval[where k=49 and y="8" and r="4503599627370496"])
    (simp_all add: round_even_def Let_def)

lemma fl64_at_30: "fl64 (1 / 100) = 5764607523034235 / 576460752303423488"
  by (rule fl64_eval[where k=59 and y="1 / 100" and r="5764607523034235"])
    (simp_all add: round_even_def Let_def)

lemma fl64_at_31: "fl64 (3 / 50) = 1080863910568919 / 18014398509481984"
  by (rule fl64_eval[where k=57 and y="3 / 50" and r="8646911284551352"])
    (simp_all add: round_even_def Let_def)

lemma fl64_at_32: "fl64 (5764607523034235 / 576460752303423488) = 5764607523034235 / 576460752303423488"
  by (rule fl64_eval[where k=59 and y="5764607523034235 / 576460752303423488" and r="5764607523034235"])
    (simp_all add: round_even_def Let_def)

lemma fl64_at_33: "fl64 (40352252661239643 / 576460752303423488) = 5044031582654955 / 72057594037927936"
  by (rule fl64_eval[where k=56 and y="40352252661239643 / 576460752303423488" and r="5044031582654955"])
    (simp_all add: round_even_def Let_def)

lemma fl64_at_34: "fl64 (46116860184273875 / 576460752303423488) = 2882303761517117 / 36028797018963968"
  by (rule fl64_eval[where k=56 and y="46116860184273875 / 576460752303423488" and r="5764607523034234"])
    (simp_all add: round_even_def Let_def)

lemma fl64_at_35: "fl64 (5764607523034235 / 46116860184273872) = 4503599627370497 / 36028797018963968"
  by (rule fl64_eval[where k=55 and y="5764607523034235 / 46116860184273872" and r="4503599627370497"])
    (simp_all add: round_even_def Let_def)

lemma fl64_at_36: "fl64 (2161727821137838 / 2882303761517117) = 6755399441055745 / 9007199254740992"
  by (rule fl64_eval[where k=53 and y="2161727821137838 / 2882303761517117" and r="6755399441055745"])
    (simp_all add: round_even_def Let_def)

lemma fl64_at_37: "fl64 (4503599627370497 / 36028797018963968) = 4503599627370497 / 36028797018963968"
  by (rule fl64_eval[where k=55 and y="4503599627370497 / 36028797018963968" and r="4503599627370497"])
    (simp_all add: round_even_def Let_def)

lemma fl64_at_38: "fl64 (31525197391593477 / 36028797018963968) = 7881299347898369 / 9007199254740992"
  by (rule fl64_eval[where k=53 and y="31525197391593477 / 36028797018963968" and r="7881299347898369"])
    (simp_all add: round_even_def Let_def)

lemma fl64_at_39: "fl64 (36028797018963973 / 36028797018963968) = 4503599627370497 / 4503599627370496"
  by (rule fl64_eval[where k=52 and y="36028797018963973 / 36028797018963968" and r="4503599627370497"])
    (simp_all add: round_even_def Let_def)

lemma fl64_at_40: "fl64 (- (1 / 4503599627370496)) = - (1 / 4503599627370496)"
  by (rule fl64_eval[where k=104 and y="- (1 / 4503599627370496)" and r="- 4503599627370496"])
    (simp_all add: round_even_def Let_def)

lemma fl64_at_41: "fl64 (9 / 25) = 3242591731706757 / 9007199254740992"
  by (rule fl64_eval[where k=54 and y="9 / 25" and r="6485183463413514"])
    (simp_all add: round_even_def Let_def)

lemma fl64_at_42: "fl64 (7 / 50) = 1261007895663739 / 9007199254740992"
  by (rule fl64_eval[where k=55 and y="7 / 50" and r="5044031582654956"])
    (simp_all add: round_even_def Let_def)

lemmas fl64_at =
  fl64_0 fl64_at_1 fl64_at_2 fl64_at_3 fl64_at_4 fl64_at_5 fl64_at_6 fl64_at_7 fl64_at_8
  fl64_at_9 fl64_at_10 fl64_at_11 fl64_at_12 fl64_at_13 fl64_at_14 fl64_at_15 fl64_at_16
  fl64_at_17 fl64_at_18 fl64_at_19 fl64_at_20 fl64_at_21 fl64_at_22 fl64_at_23 fl64_at_24
  fl64_at_25 fl64_at_26 fl64_at_27 fl64_at_28 fl64_at_29 fl64_at_30 fl64_at_31 fl64_at_32
  fl64_at_33 fl64_at_34 fl64_at_35 fl64_at_36 fl64_at_37 fl64_at_38 fl64_at_39 fl64_at_40
  fl64_at_41 fl64_at_42

section \<open>Properties of the trending composite\<close>

text \<open>
  Claim C2. The trending score can exceed 100. For the weights 0.1, 0.7 and 0 the divisor
  is the double 0.7999999999999999 (the sum 0.1 + 0.7 in doubles), which is pasted into
  the query as that decimal; a product that has the most views and the most comparisons
  of its type has \<open>norm_views = norm_compares = 100\<close>, and its score is
  \<open>80 / 0.7999999999999999\<close>, which is greater than 100. The query does not clamp it.
\<close>

theorem trending_score_above_100:
  "normalize_to_max 12 12 = 100
   \<and> js_add (js_add (Finite (3602879701896397 / 36028797018963968))
                (Finite (3152519739159347 / 4503599627370496))) (Finite 0)
       = Finite (7205759403792793 / 9007199254740992)
   \<and> \<bar>7205759403792793 / 9007199254740992 - 7999999999999999 / 10 ^ 16\<bar> < (1 / 10 ^ 16 :: real)
   \<and> trending_score (normalize_to_max 12 12) (normalize_to_max 5 5) v (1 / 10) (7 / 10) 0
         (7999999999999999 / 10 ^ 16)
       = Some (800000000000000000 / 7999999999999999)
   \<and> (100 :: real) < 800000000000000000 / 7999999999999999"
  by (simp add: normalize_to_max_def trending_score_def sql_div_def dbl_def MAX_VALUE_def Let_def fl64_at)


section \<open>Properties of the weight normalisation of the recompute jobs\<close>

lemma toNonNegativeNumber_invalid:
  "invalid_weight n \<Longrightarrow> toNonNegativeNumber n d = d"
  by (cases n) (auto simp: invalid_weight_def toNonNegativeNumber_def)

lemma toNonNegativeNumber_nonneg:
  "0 \<le> d \<Longrightarrow> 0 \<le> toNonNegativeNumber n d"
  by (cases n) (auto simp: toNonNegativeNumber_def)

lemma safe_invalid: "invalid_weight n \<Longrightarrow> safe n = 0"
  by (cases n) (auto simp: invalid_weight_def safe_def)

lemma safe_nonneg: "0 \<le> safe n"
  by (cases n) (auto simp: safe_def)

lemma js_sum_buyer_intent: "js_sum (map snd DEFAULT_BUYER_INTENT_WEIGHTS) = Finite 1"
  by (simp add: DEFAULT_BUYER_INTENT_WEIGHTS_def js_sum_def dbl_def MAX_VALUE_def Let_def fl64_at)

lemma js_sum_trend_velocity: "js_sum (map snd DEFAULT_TREND_VELOCITY_WEIGHTS) = Finite 1"
  by (simp add: DEFAULT_TREND_VELOCITY_WEIGHTS_def js_sum_def dbl_def MAX_VALUE_def Let_def fl64_at)

lemma js_sum_hook_score: "js_sum (map snd DEFAULT_HOOK_SCORE_WEIGHTS) = Finite 1"
  by (simp add: DEFAULT_HOOK_SCORE_WEIGHTS_def js_sum_def dbl_def MAX_VALUE_def Let_def fl64_at)

lemma hook_documented_defaults:
  assumes "ds = DEFAULT_BUYER_INTENT_WEIGHTS \<or> ds = DEFAULT_TREND_VELOCITY_WEIGHTS
           \<or> ds = DEFAULT_HOOK_SCORE_WEIGHTS"
  shows "distinct (map fst ds)" and "\<forall>(k, d) \<in> set ds. 0 < d"
    and "js_sum (map snd ds) = Finite 1"
proof -
  show "distinct (map fst ds)"
    using assms
    by (auto simp: DEFAULT_BUYER_INTENT_WEIGHTS_def DEFAULT_TREND_VELOCITY_WEIGHTS_def
        DEFAULT_HOOK_SCORE_WEIGHTS_def)
  show "\<forall>(k, d) \<in> set ds. 0 < d"
    using assms
    by (auto simp: DEFAULT_BUYER_INTENT_WEIGHTS_def DEFAULT_TREND_VELOCITY_WEIGHTS_def
        DEFAULT_HOOK_SCORE_WEIGHTS_def fl64_at)
  show "js_sum (map snd ds) = Finite 1"
    using assms js_sum_buyer_intent js_sum_trend_velocity js_sum_hook_score by auto
qed

lemma map_of_hook_sanitized:
  "distinct (map fst ds) \<Longrightarrow> (k, d) \<in> set ds \<Longrightarrow>
   map_of (hook_sanitized w ds) k = Some (toNonNegativeNumber (merged w k d) d)"
  by (induction ds) (auto simp: hook_sanitized_def rev_image_eqI)

lemma hook_sanitized_nonneg:
  "\<forall>(k, d) \<in> set ds. 0 < d \<Longrightarrow> \<forall>x \<in> set (map snd (hook_sanitized w ds)). 0 \<le> x"
  by (induction ds) (auto simp: hook_sanitized_def toNonNegativeNumber_nonneg less_imp_le)

lemma hook_sanitized_all_invalid:
  "\<forall>(k, d) \<in> set ds. invalid_weight (merged w k d) \<Longrightarrow> hook_sanitized w ds = ds"
  by (induction ds) (auto simp: hook_sanitized_def toNonNegativeNumber_invalid)

lemma hook_sanitized_all_zero:
  "\<forall>(k, d) \<in> set ds. merged w k d = Finite 0 \<Longrightarrow>
   \<forall>x \<in> set (map snd (hook_sanitized w ds)). x = 0"
  by (induction ds) (auto simp: hook_sanitized_def toNonNegativeNumber_def)

lemma hook_cases:
  assumes "js_sum (map snd ds) = Finite 1"
  shows "js_le0 (js_sum (map snd (hook_sanitized w ds))) \<Longrightarrow>
           hook_normalizeWeights w ds = \<lparr>hw_entries = ds, hw_total = Finite 1\<rparr>"
    and "\<not> js_le0 (js_sum (map snd (hook_sanitized w ds))) \<Longrightarrow>
           hook_normalizeWeights w ds =
             \<lparr>hw_entries = hook_sanitized w ds,
              hw_total = js_sum (map snd (hook_sanitized w ds))\<rparr>"
  using assms by (simp_all add: hook_normalizeWeights_def Let_def)

lemma trending_total_nonneg:
  "(\<exists>t\<ge>0. js_add (js_add (Finite (safe a)) (Finite (safe b))) (Finite (safe c)) = Finite t)
   \<or> js_add (js_add (Finite (safe a)) (Finite (safe b))) (Finite (safe c)) = PosInfinity"
proof -
  have "(\<exists>t\<ge>0. js_add (Finite (safe a)) (Finite (safe b)) = Finite t)
      \<or> js_add (Finite (safe a)) (Finite (safe b)) = PosInfinity"
    by (intro js_add_nonneg) (auto simp: safe_nonneg)
  then show ?thesis
    by (intro js_add_nonneg) (auto simp: safe_nonneg)
qed

lemma trending_cases:
  fixes w :: weight_opts
  defines "vw \<equiv> safe (merged w ''views'' (tw_views DEFAULT_WEIGHTS))"
    and "cw \<equiv> safe (merged w ''compares'' (tw_compares DEFAULT_WEIGHTS))"
    and "velw \<equiv> safe (merged w ''velocity'' (tw_velocity DEFAULT_WEIGHTS))"
  shows "js_le0 (js_add (js_add (Finite vw) (Finite cw)) (Finite velw)) \<Longrightarrow>
           trending_normalizeWeights w = DEFAULT_WEIGHTS"
    and "\<not> js_le0 (js_add (js_add (Finite vw) (Finite cw)) (Finite velw)) \<Longrightarrow>
           trending_normalizeWeights w =
             \<lparr>tw_views = vw, tw_compares = cw, tw_velocity = velw,
              tw_total = js_add (js_add (Finite vw) (Finite cw)) (Finite velw)\<rparr>"
  unfolding vw_def cw_def velw_def
  by (simp_all add: trending_normalizeWeights_def Let_def)

text \<open>
  Claim C1, as stated, fails in the trending-score family: the negative weight \<open>views = -1\<close>
  (and likewise \<open>NaN\<close>) becomes 0 there, not the default 0.4 of its key. The divisor is
  then the sum of the doubles 0, 0.4 and 0.2, which is the double 0.6000000000000001.
\<close>

theorem trending_negative_weight_counterexample:
  "invalid_weight (Finite (- 1))
   \<and> tw_views (trending_normalizeWeights (Map.empty(''views'' \<mapsto> Finite (- 1)))) = 0
   \<and> tw_views DEFAULT_WEIGHTS = 3602879701896397 / 9007199254740992
   \<and> tw_total (trending_normalizeWeights (Map.empty(''views'' \<mapsto> Finite (- 1))))
       = Finite (1351079888211149 / 2251799813685248)
   \<and> tw_views (trending_normalizeWeights (Map.empty(''views'' \<mapsto> NaN)))
       \<noteq> tw_views DEFAULT_WEIGHTS"
  by (simp add: invalid_weight_def trending_normalizeWeights_def merged_def safe_def
      DEFAULT_WEIGHTS_def Let_def dbl_def MAX_VALUE_def js_le0_def fl64_at)

text \<open>
  Claim C1, amended. For each of the three default sets of hookScore.js (buyer-intent,
  trend-velocity, hook-score): a negative or non-finite weight is replaced by the default
  of its key; the divisor is the sum of the sanitised weights as the loop adds them up in
  doubles; when that sum is at most 0 the result is the default set with divisor 1,
  otherwise it is the sanitised weights with that sum; all-zero and all-negative weight
  sets give the default set with divisor 1. In trendingScore.js a negative or non-finite
  weight counts as 0 (\<open>safe\<close>), not as the default of its key; when the sum in doubles is
  at most 0 the result is the default weights with divisor 1, otherwise the sanitised
  weights with that sum; all-zero and all-negative weight sets give the default weights.
  In every family the divisor is a positive finite number or, when the sum overflows,
  \<open>Infinity\<close>: never 0 and never \<open>NaN\<close>.
\<close>

theorem weight_normalization:
  assumes "ds = DEFAULT_BUYER_INTENT_WEIGHTS \<or> ds = DEFAULT_TREND_VELOCITY_WEIGHTS
           \<or> ds = DEFAULT_HOOK_SCORE_WEIGHTS"
  shows
    "(\<forall>(k, d) \<in> set ds. invalid_weight (merged w k d) \<longrightarrow>
        map_of (hw_entries (hook_normalizeWeights w ds)) k = Some d)
     \<and> (js_le0 (js_sum (map snd (hook_sanitized w ds))) \<longrightarrow>
          hook_normalizeWeights w ds = \<lparr>hw_entries = ds, hw_total = Finite 1\<rparr>)
     \<and> (\<not> js_le0 (js_sum (map snd (hook_sanitized w ds))) \<longrightarrow>
          hook_normalizeWeights w ds =
            \<lparr>hw_entries = hook_sanitized w ds,
             hw_total = js_sum (map snd (hook_sanitized w ds))\<rparr>)
     \<and> ((\<forall>(k, d) \<in> set ds. merged w k d = Finite 0)
          \<or> (\<forall>(k, d) \<in> set ds. \<exists>x<0. merged w k d = Finite x) \<longrightarrow>
          hook_normalizeWeights w ds = \<lparr>hw_entries = ds, hw_total = Finite 1\<rparr>)
     \<and> ((\<exists>t>0. hw_total (hook_normalizeWeights w ds) = Finite t)
          \<or> hw_total (hook_normalizeWeights w ds) = PosInfinity)
     \<and> (\<forall>n. invalid_weight n \<longrightarrow> safe n = 0)
     \<and> (js_le0 (js_add (js_add (Finite (safe (merged v ''views'' (tw_views DEFAULT_WEIGHTS))))
                           (Finite (safe (merged v ''compares'' (tw_compares DEFAULT_WEIGHTS)))))
                   (Finite (safe (merged v ''velocity'' (tw_velocity DEFAULT_WEIGHTS))))) \<longrightarrow>
          trending_normalizeWeights v = DEFAULT_WEIGHTS)
     \<and> (\<not> js_le0 (js_add (js_add (Finite (safe (merged v ''views'' (tw_views DEFAULT_WEIGHTS))))
                           (Finite (safe (merged v ''compares'' (tw_compares DEFAULT_WEIGHTS)))))
                   (Finite (safe (merged v ''velocity'' (tw_velocity DEFAULT_WEIGHTS))))) \<longrightarrow>
          trending_normalizeWeights v =
            \<lparr>tw_views = safe (merged v ''views'' (tw_views DEFAULT_WEIGHTS)),
             tw_compares = safe (merged v ''compares'' (tw_compares DEFAULT_WEIGHTS)),
             tw_velocity = safe (merged v ''velocity'' (tw_velocity DEFAULT_WEIGHTS)),
             tw_total =
               js_add (js_add (Finite (safe (merged v ''views'' (tw_views DEFAULT_WEIGHTS))))
                              (Finite (safe (merged v ''compares'' (tw_compares DEFAULT_WEIGHTS)))))
                      (Finite (safe (merged v ''velocity'' (tw_velocity DEFAULT_WEIGHTS))))\<rparr>)
     \<and> ((\<forall>k \<in> {''views'', ''compares'', ''velocity''}. v k = Some (Finite 0))
          \<or> (\<forall>k \<in> {''views'', ''compares'', ''velocity''}. \<exists>x<0. v k = Some (Finite x)) \<longrightarrow>
          trending_normalizeWeights v = DEFAULT_WEIGHTS)
     \<and> ((\<exists>t>0. tw_total (trending_normalizeWeights v) = Finite t)
          \<or> tw_total (trending_normalizeWeights v) = PosInfinity)"
proof -
  note D = hook_documented_defaults[OF assms]
  let ?s = "js_sum (map snd (hook_sanitized w ds))"
  note H = hook_cases[OF D(3), of w]
  have nn: "(\<exists>t\<ge>0. ?s = Finite t) \<or> ?s = PosInfinity"
    by (rule js_sum_nonneg[OF hook_sanitized_nonneg[OF D(2)]])
  have a: "\<forall>(k, d) \<in> set ds. invalid_weight (merged w k d) \<longrightarrow>
        map_of (hw_entries (hook_normalizeWeights w ds)) k = Some d"
  proof (intro ballI, clarify)
    fix k d
    assume kd: "(k, d) \<in> set ds" and inv: "invalid_weight (merged w k d)"
    show "map_of (hw_entries (hook_normalizeWeights w ds)) k = Some d"
    proof (cases "js_le0 ?s")
      case True
      then show ?thesis
        using H(1) D(1) kd by simp
    next
      case False
      then show ?thesis
        using H(2) map_of_hook_sanitized[OF D(1) kd] inv
        by (simp add: toNonNegativeNumber_invalid)
    qed
  qed
  have zero: "hook_normalizeWeights w ds = \<lparr>hw_entries = ds, hw_total = Finite 1\<rparr>"
    if "\<forall>(k, d) \<in> set ds. merged w k d = Finite 0"
  proof -
    have "?s = Finite 0"
      by (rule js_sum_zeros[OF hook_sanitized_all_zero[OF that]])
    then show ?thesis
      using H(1) by (simp add: js_le0_def)
  qed
  have neg: "hook_normalizeWeights w ds = \<lparr>hw_entries = ds, hw_total = Finite 1\<rparr>"
    if h: "\<forall>(k, d) \<in> set ds. \<exists>x<0. merged w k d = Finite x"
  proof -
    have "\<forall>(k, d) \<in> set ds. invalid_weight (merged w k d)"
      using h by (auto simp: invalid_weight_def)
    then have s: "hook_sanitized w ds = ds"
      by (rule hook_sanitized_all_invalid)
    then have "\<not> js_le0 ?s"
      using D(3) by (simp add: js_le0_def)
    then show ?thesis
      using H(2) s D(3) by simp
  qed
  have pos: "(\<exists>t>0. hw_total (hook_normalizeWeights w ds) = Finite t)
          \<or> hw_total (hook_normalizeWeights w ds) = PosInfinity"
  proof (cases "js_le0 ?s")
    case True
    then show ?thesis using H(1) by simp
  next
    case False
    then show ?thesis
      using H(2) not_le0_pos[OF nn False] by simp
  qed
  let ?t = "js_add (js_add (Finite (safe (merged v ''views'' (tw_views DEFAULT_WEIGHTS))))
                           (Finite (safe (merged v ''compares'' (tw_compares DEFAULT_WEIGHTS)))))
                   (Finite (safe (merged v ''velocity'' (tw_velocity DEFAULT_WEIGHTS))))"
  note T = trending_cases[of v]
  have tz: "trending_normalizeWeights v = DEFAULT_WEIGHTS"
    if "\<forall>k \<in> {''views'', ''compares'', ''velocity''}. v k = Some (Finite 0)"
    using that by (intro T(1)) (simp add: merged_def safe_def dbl_def MAX_VALUE_def fl64_0 js_le0_def)
  have tn: "trending_normalizeWeights v = DEFAULT_WEIGHTS"
    if "\<forall>k \<in> {''views'', ''compares'', ''velocity''}. \<exists>x<0. v k = Some (Finite x)"
    using that by (intro T(1)) (auto simp: merged_def safe_def dbl_def MAX_VALUE_def fl64_0 js_le0_def)
  have tpos: "(\<exists>t>0. tw_total (trending_normalizeWeights v) = Finite t)
          \<or> tw_total (trending_normalizeWeights v) = PosInfinity"
  proof (cases "js_le0 ?t")
    case True
    then show ?thesis using T(1) by (simp add: DEFAULT_WEIGHTS_def)
  next
    case False
    then show ?thesis
      using T(2) not_le0_pos[OF trending_total_nonneg False] by simp
  qed
  show ?thesis
    using a H zero neg pos tz tn tpos T safe_invalid
    by blast
qed


lemma fl64_2_1023: "fl64 (2 ^ 1023) = 2 ^ 1023"
  by (rule fl64_eval_up[where k=971 and y="2 ^ 1023" and r="4503599627370496"])
    (simp_all add: round_even_def Let_def)

lemma fl64_2_1024: "fl64 (2 ^ 1024) = 2 ^ 1024"
  by (rule fl64_eval_up[where k=972 and y="2 ^ 1024" and r="4503599627370496"])
    (simp_all add: round_even_def Let_def)

lemma js_sum_overflow: "js_sum [2 ^ 1023, 2 ^ 1023] = PosInfinity"
proof -
  have a: "dbl (2 ^ 1023) = Finite (2 ^ 1023)"
    unfolding dbl_def Let_def fl64_2_1023 by (simp add: MAX_VALUE_def)
  have b: "dbl (2 ^ 1024) = PosInfinity"
    unfolding dbl_def Let_def fl64_2_1024 by (simp add: MAX_VALUE_def)
  have c: "(2::real) ^ 1023 + 2 ^ 1023 = 2 ^ 1024"
    by simp
  show ?thesis
    by (simp only: js_sum_def foldl.simps js_add.simps add_0 a b c)
qed

theorem weight_normalization_witness:
  "hook_normalizeWeights
      (Map.empty(''buyer_intent'' \<mapsto> Finite (- 3), ''trend_velocity'' \<mapsto> NaN))
      DEFAULT_HOOK_SCORE_WEIGHTS
     = \<lparr>hw_entries = DEFAULT_HOOK_SCORE_WEIGHTS, hw_total = Finite 1\<rparr>
   \<and> hook_normalizeWeights
      (Map.empty(''views'' \<mapsto> Finite 0, ''compares'' \<mapsto> Finite 0, ''wishlist'' \<mapsto> Finite 0))
      DEFAULT_BUYER_INTENT_WEIGHTS
     = \<lparr>hw_entries = DEFAULT_BUYER_INTENT_WEIGHTS, hw_total = Finite 1\<rparr>
   \<and> hook_normalizeWeights (Map.empty(''views'' \<mapsto> Finite 30, ''compares'' \<mapsto> PosInfinity))
      DEFAULT_TREND_VELOCITY_WEIGHTS
     = \<lparr>hw_entries = [(''views'', 30), (''compares'', 5404319552844595 / 18014398509481984)],
        hw_total = Finite (8528691794332877 / 281474976710656)\<rparr>
   \<and> hw_total (hook_normalizeWeights
        (Map.empty(''views'' \<mapsto> Finite (2 ^ 1023), ''compares'' \<mapsto> Finite (2 ^ 1023)))
        DEFAULT_TREND_VELOCITY_WEIGHTS) = PosInfinity
   \<and> trending_normalizeWeights
      (Map.empty(''views'' \<mapsto> Finite (- 1), ''compares'' \<mapsto> Finite (- 2), ''velocity'' \<mapsto> Finite (- 3)))
     = DEFAULT_WEIGHTS
   \<and> trending_normalizeWeights
      (Map.empty(''views'' \<mapsto> Finite (3602879701896397 / 36028797018963968),
                 ''compares'' \<mapsto> Finite (3152519739159347 / 4503599627370496),
                 ''velocity'' \<mapsto> Finite 0))
     = \<lparr>tw_views = 3602879701896397 / 36028797018963968,
        tw_compares = 3152519739159347 / 4503599627370496,
        tw_velocity = 0,
        tw_total = Finite (7205759403792793 / 9007199254740992)\<rparr>"
proof -
  let ?w1 = "Map.empty(''buyer_intent'' \<mapsto> Finite (- 3), ''trend_velocity'' \<mapsto> NaN)"
  let ?w2 = "Map.empty(''views'' \<mapsto> Finite 0, ''compares'' \<mapsto> Finite 0, ''wishlist'' \<mapsto> Finite 0)"
  let ?w3 = "Map.empty(''views'' \<mapsto> Finite 30, ''compares'' \<mapsto> PosInfinity)"
  let ?w4 = "Map.empty(''views'' \<mapsto> Finite (2 ^ 1023), ''compares'' \<mapsto> Finite (2 ^ 1023))"
  let ?v1 = "Map.empty(''views'' \<mapsto> Finite (- 1), ''compares'' \<mapsto> Finite (- 2), ''velocity'' \<mapsto> Finite (- 3))"
  let ?v2 = "Map.empty(''views'' \<mapsto> Finite (3602879701896397 / 36028797018963968),
                 ''compares'' \<mapsto> Finite (3152519739159347 / 4503599627370496),
                 ''velocity'' \<mapsto> Finite 0)"
  have hs: "DEFAULT_HOOK_SCORE_WEIGHTS = DEFAULT_BUYER_INTENT_WEIGHTS
      \<or> DEFAULT_HOOK_SCORE_WEIGHTS = DEFAULT_TREND_VELOCITY_WEIGHTS
      \<or> DEFAULT_HOOK_SCORE_WEIGHTS = DEFAULT_HOOK_SCORE_WEIGHTS"
    and bi: "DEFAULT_BUYER_INTENT_WEIGHTS = DEFAULT_BUYER_INTENT_WEIGHTS
      \<or> DEFAULT_BUYER_INTENT_WEIGHTS = DEFAULT_TREND_VELOCITY_WEIGHTS
      \<or> DEFAULT_BUYER_INTENT_WEIGHTS = DEFAULT_HOOK_SCORE_WEIGHTS"
    and tv: "DEFAULT_TREND_VELOCITY_WEIGHTS = DEFAULT_BUYER_INTENT_WEIGHTS
      \<or> DEFAULT_TREND_VELOCITY_WEIGHTS = DEFAULT_TREND_VELOCITY_WEIGHTS
      \<or> DEFAULT_TREND_VELOCITY_WEIGHTS = DEFAULT_HOOK_SCORE_WEIGHTS"
    by simp_all
  note W1 = weight_normalization[OF hs, of ?w1 ?v1]
  note W2 = weight_normalization[OF bi, of ?w2 ?v2]
  note W3 = weight_normalization[OF tv, of ?w3 ?v1]
  note W4 = weight_normalization[OF tv, of ?w4 ?v1]
  have s1: "hook_sanitized ?w1 DEFAULT_HOOK_SCORE_WEIGHTS = DEFAULT_HOOK_SCORE_WEIGHTS"
    by (simp add: hook_sanitized_def DEFAULT_HOOK_SCORE_WEIGHTS_def merged_def
        toNonNegativeNumber_def)
  have n1: "\<not> js_le0 (js_sum (map snd (hook_sanitized ?w1 DEFAULT_HOOK_SCORE_WEIGHTS)))"
    unfolding s1 js_sum_hook_score by (simp add: js_le0_def)
  have 1: "hook_normalizeWeights ?w1 DEFAULT_HOOK_SCORE_WEIGHTS
     = \<lparr>hw_entries = DEFAULT_HOOK_SCORE_WEIGHTS, hw_total = Finite 1\<rparr>"
    using W1 n1 unfolding s1 js_sum_hook_score by blast
  have z2: "\<forall>(k, d) \<in> set DEFAULT_BUYER_INTENT_WEIGHTS. merged ?w2 k d = Finite 0"
    by (simp add: DEFAULT_BUYER_INTENT_WEIGHTS_def merged_def)
  have 2: "hook_normalizeWeights ?w2 DEFAULT_BUYER_INTENT_WEIGHTS
     = \<lparr>hw_entries = DEFAULT_BUYER_INTENT_WEIGHTS, hw_total = Finite 1\<rparr>"
    using W2 z2 by blast
  have s3: "hook_sanitized ?w3 DEFAULT_TREND_VELOCITY_WEIGHTS
      = [(''views'', 30), (''compares'', 5404319552844595 / 18014398509481984)]"
    by (simp add: hook_sanitized_def DEFAULT_TREND_VELOCITY_WEIGHTS_def merged_def
        toNonNegativeNumber_def fl64_at)
  have t3: "js_sum [30, 5404319552844595 / 18014398509481984]
      = Finite (8528691794332877 / 281474976710656)"
    by (simp add: js_sum_def dbl_def MAX_VALUE_def Let_def fl64_at)
  have n3: "\<not> js_le0 (js_sum (map snd (hook_sanitized ?w3 DEFAULT_TREND_VELOCITY_WEIGHTS)))"
    unfolding s3 by (simp add: t3 js_le0_def)
  have 3: "hook_normalizeWeights ?w3 DEFAULT_TREND_VELOCITY_WEIGHTS
     = \<lparr>hw_entries = [(''views'', 30), (''compares'', 5404319552844595 / 18014398509481984)],
        hw_total = Finite (8528691794332877 / 281474976710656)\<rparr>"
    using W3 n3 unfolding s3 by (simp add: t3)
  have s4: "map snd (hook_sanitized ?w4 DEFAULT_TREND_VELOCITY_WEIGHTS) = [2 ^ 1023, 2 ^ 1023]"
    by (simp add: hook_sanitized_def DEFAULT_TREND_VELOCITY_WEIGHTS_def merged_def
        toNonNegativeNumber_def)
  have n4: "\<not> js_le0 (js_sum (map snd (hook_sanitized ?w4 DEFAULT_TREND_VELOCITY_WEIGHTS)))"
    unfolding s4 js_sum_overflow by (simp add: js_le0_def)
  have 4: "hw_total (hook_normalizeWeights ?w4 DEFAULT_TREND_VELOCITY_WEIGHTS) = PosInfinity"
  proof -
    have "hook_normalizeWeights ?w4 DEFAULT_TREND_VELOCITY_WEIGHTS =
            \<lparr>hw_entries = hook_sanitized ?w4 DEFAULT_TREND_VELOCITY_WEIGHTS,
             hw_total = js_sum (map snd (hook_sanitized ?w4 DEFAULT_TREND_VELOCITY_WEIGHTS))\<rparr>"
      using W4 n4 by blast
    then show ?thesis
      unfolding s4 js_sum_overflow by simp
  qed
  have n5: "\<forall>k \<in> {''views'', ''compares'', ''velocity''}. \<exists>x<0. ?v1 k = Some (Finite x)"
    by simp
  have 5: "trending_normalizeWeights ?v1 = DEFAULT_WEIGHTS"
    using W1 n5 by blast
  have s6: "safe (merged ?v2 ''views'' (tw_views DEFAULT_WEIGHTS)) = 3602879701896397 / 36028797018963968"
    "safe (merged ?v2 ''compares'' (tw_compares DEFAULT_WEIGHTS)) = 3152519739159347 / 4503599627370496"
    "safe (merged ?v2 ''velocity'' (tw_velocity DEFAULT_WEIGHTS)) = 0"
    by (simp_all add: merged_def safe_def)
  have t6: "js_add (js_add (Finite (3602879701896397 / 36028797018963968))
                (Finite (3152519739159347 / 4503599627370496))) (Finite 0)
      = Finite (7205759403792793 / 9007199254740992)"
    by (simp add: dbl_def MAX_VALUE_def Let_def fl64_at)
  have 6: "trending_normalizeWeights ?v2
     = \<lparr>tw_views = 3602879701896397 / 36028797018963968,
        tw_compares = 3152519739159347 / 4503599627370496,
        tw_velocity = 0,
        tw_total = Finite (7205759403792793 / 9007199254740992)\<rparr>"
    using W2 unfolding s6 t6 by (simp add: js_le0_def)
  from 1 2 3 4 5 6 show ?thesis
    by blast
qed


section \<open>Properties of the weight normalisation of the compare engine\<close>

text \<open>
  Claim C10. The components of the weight vector do not always sum to 1. For the weights
  0, 0, 1, 6, 1 the raw sum 8 exceeds 1.5, the weights are divided by 100, and the
  shares of the last three round to the doubles 0.12500000000000003, 0.7500000000000001
  and 0.12500000000000003. Their sum as the code adds it up is 1.0000000000000002, and
  their exact sum exceeds 1 as well. The residual \<open>1 - sum\<close> is negative, the first
  component is 0 and stays 0 under the clamp, so the adjustment repairs nothing.
\<close>

theorem normalizeWeights_sum_not_one:
  "normalizeWeights env
      (JObj [(''performance'', JNum (Finite 0)), (''display'', JNum (Finite 0)),
             (''camera'', JNum (Finite 1)), (''battery'', JNum (Finite 6)),
             (''priceValue'', JNum (Finite 1))])
     = Inr [(''performance'', 0), (''display'', 0),
            (''camera'', 4503599627370497 / 36028797018963968),
            (''battery'', 6755399441055745 / 9007199254740992),
            (''priceValue'', 4503599627370497 / 36028797018963968)]
   \<and> reduce_sum [0, 0, 4503599627370497 / 36028797018963968,
                  6755399441055745 / 9007199254740992,
                  4503599627370497 / 36028797018963968]
       = 4503599627370497 / 4503599627370496
   \<and> sum_list [0, 0, 4503599627370497 / 36028797018963968,
                6755399441055745 / 9007199254740992,
                4503599627370497 / 36028797018963968 :: real]
       = 18014398509481987 / 18014398509481984
   \<and> clamp (fl64 (0 + fl64 (1 - 4503599627370497 / 4503599627370496))) 0 1 = 0"
proof -
  have raw: "collect (map (rawWeight env
      (JObj [(''performance'', JNum (Finite 0)), (''display'', JNum (Finite 0)),
             (''camera'', JNum (Finite 1)), (''battery'', JNum (Finite 6)),
             (''priceValue'', JNum (Finite 1))])) WEIGHT_KEYS) = Inr [0, 0, 1, 6, 1]"
    by (simp add: WEIGHT_KEYS_def rawWeight_def toFiniteNumber_def js_nullish_def)
  have nr: "normalizeRaw [0, 0, 1, 6, 1]
     = [0, 0, 4503599627370497 / 36028797018963968, 6755399441055745 / 9007199254740992,
        4503599627370497 / 36028797018963968]"
    by (simp add: normalizeRaw_def Let_def js_sum_def dbl_def MAX_VALUE_def js_gt_def reduce_sum_def
        clamp_def fl64_at)
  have rs: "reduce_sum [0, 0, 4503599627370497 / 36028797018963968,
                  6755399441055745 / 9007199254740992,
                  4503599627370497 / 36028797018963968]
       = 4503599627370497 / 4503599627370496"
    by (simp add: reduce_sum_def fl64_at)
  have adj: "clamp (fl64 (0 + fl64 (1 - 4503599627370497 / 4503599627370496))) 0 1 = 0"
    by (simp add: clamp_def fl64_at)
  have nw: "normalizeWeights env
      (JObj [(''performance'', JNum (Finite 0)), (''display'', JNum (Finite 0)),
             (''camera'', JNum (Finite 1)), (''battery'', JNum (Finite 6)),
             (''priceValue'', JNum (Finite 1))])
     = Inr (zip WEIGHT_KEYS (normalizeRaw [0, 0, 1, 6, 1]))"
    by (simp add: normalizeWeights_def Let_def is_object_def raw)
  show ?thesis
    unfolding nw nr rs using adj by (simp add: WEIGHT_KEYS_def)
qed

text \<open>
  A weight that is an object with an own property \<open>toString\<close> makes \<open>String(value)\<close>, and
  with it the normaliser, throw.
\<close>

lemma normalizeWeights_throws:
  "normalizeWeights env (JObj [(''performance'', JObj [(''toString'', JNum (Finite 1))])])
     = Inl TypeError"
  by (simp add: normalizeWeights_def Let_def is_object_def WEIGHT_KEYS_def rawWeight_def
      toFiniteNumber_def js_nullish_def)

section \<open>Properties of the device rows of the ranking\<close>

text \<open>
  Claim C7. \<open>buildCompareRanking\<close> throws for the one-device list
  \<open>[{ "name": { "toString": 1 } }]\<close>: the device name is an object whose own \<open>toString\<close> is
  not callable, the conversion \<open>String(device?.name || ...)\<close> raises a \<open>TypeError\<close>, and
  nothing catches it.
\<close>

theorem deviceNameOf_throws:
  "deviceNameOf env (JObj [(''name'', JObj [(''toString'', JNum (Finite 1))])]) = Inl TypeError"
  by (simp add: deviceNameOf_def js_or_def)


section \<open>The sort of the ranking\<close>





























section \<open>Properties of the ranking\<close>






section \<open>Properties of the lock protocol\<close>

lemma in_locked_section_iff:
  "in_locked_section iv \<longleftrightarrow>
     phase iv = Locked \<or> phase iv = Failing \<or> (\<exists>n. phase iv = Scored n)"
  by (cases "phase iv") (simp_all add: in_locked_section_def)

lemma has_scored_iff:
  "has_scored iv \<longleftrightarrow>
     (\<exists>n. phase iv = Scored n) \<or> (\<exists>r. phase iv = Returned r \<and> \<not> skipped r)"
  by (cases "phase iv") (simp_all add: has_scored_def)

lemma pair_invariant_sym: "pair_invariant d x y \<Longrightarrow> pair_invariant d y x"
  by (auto simp: pair_invariant_def)

lemma step_phase:
  "session_of (snd (step answered n d x)) = session_of x"
  by (cases "phase x") (simp_all add: step_def pg_try_advisory_lock_def pg_advisory_unlock_def split_beta)

lemma pair_invariant_step:
  assumes "pair_invariant d x y"
  shows "pair_invariant (fst (step answered n d x)) (snd (step answered n d x)) y"
proof -
  note I = assms[unfolded pair_invariant_def side_invariant_def]
  have ne: "session_of x \<noteq> session_of y" using I by simp
  show ?thesis
  proof (cases "phase x")
    case Connected
    have nx: "\<not> in_locked_section x" "\<not> has_scored x" "\<not> past_lock x" "\<not> reports_skipped x"
      using Connected by (simp_all add: in_locked_section_iff has_scored_iff past_lock_def
          reports_skipped_def)
    then have free: "advisory_lock d \<noteq> Some (session_of x, 1)"
      using I by auto
    show ?thesis
    proof (cases answered)
      case False
      then have s: "step answered n d x = (d, x\<lparr>phase := Thrown\<rparr>)"
        using Connected by (simp add: step_def pg_try_advisory_lock_def pg_advisory_unlock_def)
      show ?thesis
        unfolding s using I nx free
        by (simp add: pair_invariant_def side_invariant_def in_locked_section_iff has_scored_iff
            past_lock_def reports_skipped_def)
    next
      case True
      show ?thesis
      proof (cases "advisory_lock d = None")
        case True
        then have s: "step answered n d x
            = (d\<lparr>advisory_lock := Some (session_of x, 1)\<rparr>, x\<lparr>phase := Locked\<rparr>)"
          using Connected \<open>answered\<close> by (simp add: step_def pg_try_advisory_lock_def pg_advisory_unlock_def)
        have ny: "\<not> in_locked_section y"
          using I True by auto
        show ?thesis
          unfolding s using I nx ny ne
          by (simp add: pair_invariant_def side_invariant_def in_locked_section_iff has_scored_iff
              past_lock_def reports_skipped_def)
      next
        case False
        then have hy: "advisory_lock d = Some (session_of y, 1)"
          using I free by auto
        then have s: "step answered n d x
            = (d, x\<lparr>phase := Returned \<lparr>ok = True, skipped = True,
                                        reason = Some ''lock_unavailable'', updated = 0\<rparr>\<rparr>)"
          using Connected \<open>answered\<close> ne by (simp add: step_def pg_try_advisory_lock_def pg_advisory_unlock_def)
        have py: "past_lock y"
          using I hy by auto
        show ?thesis
          unfolding s using I nx py hy ne
          by (simp add: pair_invariant_def side_invariant_def in_locked_section_iff has_scored_iff
              past_lock_def reports_skipped_def)
      qed
    qed
  next
    case Locked
    have hx: "advisory_lock d = Some (session_of x, 1)"
      using I Locked by (simp add: in_locked_section_iff)
    have nx: "\<not> has_scored x" "\<not> reports_skipped x"
      using Locked by (simp_all add: has_scored_iff reports_skipped_def)
    then have nw: "session_of x \<notin> set (score_writes d)"
      using I by auto
    show ?thesis
    proof (cases answered)
      case True
      then have s: "step answered n d x
          = (d\<lparr>score_writes := score_writes d @ [session_of x]\<rparr>, x\<lparr>phase := Scored n\<rparr>)"
        using Locked by (simp add: step_def pg_try_advisory_lock_def pg_advisory_unlock_def)
      show ?thesis
        unfolding s using I nx nw hx ne
        by (simp add: pair_invariant_def side_invariant_def in_locked_section_iff has_scored_iff
            past_lock_def reports_skipped_def)
    next
      case False
      then have s: "step answered n d x = (d, x\<lparr>phase := Failing\<rparr>)"
        using Locked by (simp add: step_def pg_try_advisory_lock_def pg_advisory_unlock_def)
      show ?thesis
        unfolding s using I nx nw hx ne
        by (simp add: pair_invariant_def side_invariant_def in_locked_section_iff has_scored_iff
            past_lock_def reports_skipped_def)
    qed
  next
    case Failing
    have hx: "advisory_lock d = Some (session_of x, 1)"
      using I Failing by (simp add: in_locked_section_iff)
    have nx: "\<not> has_scored x" "\<not> reports_skipped x"
      using Failing by (simp_all add: has_scored_iff reports_skipped_def)
    have ny: "\<not> in_locked_section y"
      using I hx ne by auto
    have s: "step answered n d x
        = (if answered then d\<lparr>advisory_lock := None\<rparr> else d, x\<lparr>phase := Thrown\<rparr>)"
      using Failing hx by (simp add: step_def pg_try_advisory_lock_def pg_advisory_unlock_def)
    show ?thesis
      unfolding s using I nx ny hx ne
      by (simp add: pair_invariant_def side_invariant_def in_locked_section_iff has_scored_iff
          past_lock_def reports_skipped_def)
  next
    case (Scored m)
    have hx: "advisory_lock d = Some (session_of x, 1)"
      using I Scored by (simp add: in_locked_section_iff)
    have nx: "has_scored x" "\<not> reports_skipped x"
      using Scored by (simp_all add: has_scored_iff reports_skipped_def)
    have ny: "\<not> in_locked_section y"
      using I hx ne by auto
    have s: "step answered n d x
        = (if answered then d\<lparr>advisory_lock := None\<rparr> else d,
           x\<lparr>phase := Returned \<lparr>ok = True, skipped = False, reason = None, updated = m\<rparr>\<rparr>)"
      using Scored hx by (simp add: step_def pg_try_advisory_lock_def pg_advisory_unlock_def)
    show ?thesis
      unfolding s using I nx ny hx ne
      by (simp add: pair_invariant_def side_invariant_def in_locked_section_iff has_scored_iff
          past_lock_def reports_skipped_def)
  next
    case (Returned r)
    then have s: "step answered n d x = (d, x)"
      by (simp add: step_def pg_try_advisory_lock_def pg_advisory_unlock_def)
    show ?thesis
      unfolding s using assms by simp
  next
    case Thrown
    then have s: "step answered n d x = (d, x)"
      by (simp add: step_def pg_try_advisory_lock_def pg_advisory_unlock_def)
    show ?thesis
      unfolding s using assms by simp
  qed
qed

lemma lock_invariant_start: "a \<noteq> b \<Longrightarrow> lock_invariant (start a b)"
  by (simp add: lock_invariant_def pair_invariant_def side_invariant_def start_def
      in_locked_section_iff has_scored_iff past_lock_def reports_skipped_def)

lemma lock_invariant_step:
  assumes "lock_invariant s"
  shows "lock_invariant (step_system e s)"
proof -
  obtain w answered n where e: "e = (w, answered, n)"
    by (cases e)
  show ?thesis
  proof (cases w)
    case First
    have "pair_invariant (fst (step answered n (database_of s) (first_inv s)))
            (snd (step answered n (database_of s) (first_inv s))) (second_inv s)"
      using assms unfolding lock_invariant_def by (rule pair_invariant_step)
    then show ?thesis
      unfolding e First by (simp add: lock_invariant_def step_system_def split_beta)
  next
    case Second
    have "pair_invariant (database_of s) (second_inv s) (first_inv s)"
      using assms unfolding lock_invariant_def by (rule pair_invariant_sym)
    then have "pair_invariant (fst (step answered n (database_of s) (second_inv s)))
            (snd (step answered n (database_of s) (second_inv s))) (first_inv s)"
      by (rule pair_invariant_step)
    then have "pair_invariant (fst (step answered n (database_of s) (second_inv s)))
            (first_inv s) (snd (step answered n (database_of s) (second_inv s)))"
      by (rule pair_invariant_sym)
    then show ?thesis
      unfolding e Second by (simp add: lock_invariant_def step_system_def split_beta)
  qed
qed

lemma lock_invariant_run:
  assumes "lock_invariant s"
  shows "lock_invariant (run es s)"
  using assms
proof (induction es arbitrary: s)
  case Nil
  then show ?case by (simp add: run_def)
next
  case (Cons e es)
  have "lock_invariant (step_system e s)"
    by (rule lock_invariant_step[OF Cons.prems])
  then have "lock_invariant (run es (step_system e s))"
    by (rule Cons.IH)
  then show ?case by (simp add: run_def)
qed


lemma step_system_sessions:
  "session_of (first_inv (step_system e s)) = session_of (first_inv s)
   \<and> session_of (second_inv (step_system e s)) = session_of (second_inv s)"
proof -
  obtain w answered n where e: "e = (w, answered, n)"
    by (cases e)
  show ?thesis
    unfolding e by (cases w) (simp_all add: step_system_def split_beta step_phase)
qed

lemma run_sessions:
  "session_of (first_inv (run es s)) = session_of (first_inv s)
   \<and> session_of (second_inv (run es s)) = session_of (second_inv s)"
proof (induction es arbitrary: s)
  case Nil
  then show ?case by (simp add: run_def)
next
  case (Cons e es)
  have "run (e # es) s = run es (step_system e s)"
    by (simp add: run_def)
  then show ?case
    using Cons.IH[of "step_system e s"] step_system_sessions[of e s] by simp
qed

lemma step_turned_away:
  assumes "phase iv = Connected" and "\<not> fst (pg_try_advisory_lock (session_of iv) d)"
  shows "step True n d iv
     = (d, iv\<lparr>phase := Returned \<lparr>ok = True, skipped = True,
                                reason = Some ''lock_unavailable'', updated = 0\<rparr>\<rparr>)"
  using assms
  by (auto simp: step_def pg_try_advisory_lock_def split_beta split: option.splits if_splits)

lemma step_finished:
  assumes "phase iv = Returned r"
  shows "step answered n d iv = (d, iv)"
  using assms by (simp add: step_def)

text \<open>
  Claim C8, as stated, fails for two invocations that are in flight together when the
  lock statement of the second reaches the database after the first has given the lock
  back: both take the lock in turn, both run their scoring statement, and neither
  reports \<open>skipped\<close>.
\<close>

theorem both_update_counterexample:
  "phase (first_inv (run [(First, True, 7), (First, True, 7), (First, True, 7),
                          (Second, True, 4), (Second, True, 4), (Second, True, 4)] (start 1 2)))
     = Returned \<lparr>ok = True, skipped = False, reason = None, updated = 7\<rparr>
   \<and> phase (second_inv (run [(First, True, 7), (First, True, 7), (First, True, 7),
                          (Second, True, 4), (Second, True, 4), (Second, True, 4)] (start 1 2)))
     = Returned \<lparr>ok = True, skipped = False, reason = None, updated = 4\<rparr>
   \<and> score_writes (database_of (run [(First, True, 7), (First, True, 7), (First, True, 7),
                          (Second, True, 4), (Second, True, 4), (Second, True, 4)] (start 1 2)))
     = [1, 2]"
  by (simp add: run_def step_system_def step_def start_def pg_try_advisory_lock_def
      pg_advisory_unlock_def)

text \<open>
  Claim C8, amended. An invocation whose lock statement is answered and does not get the
  lock changes nothing in the database, returns
  \<open>{ ok: true, skipped: true, reason: "lock_unavailable", updated: 0 }\<close> and issues no
  further statement. For two invocations for the same lock key that are in flight
  together, in different sessions and starting from a free lock, whatever the order of
  their statements and whichever statements fail: the two are never both between taking
  the lock and giving it back; the one whose lock statement is answered while the other
  is there reports \<open>skipped\<close> and leaves the database as it is; an invocation that reports
  \<open>skipped\<close> has written no scores; the two do not both report \<open>skipped\<close>; and an
  invocation that returns reports either \<open>skipped\<close> or the update it has made.
\<close>

theorem lock_protocol:
  assumes "a \<noteq> b"
  shows
    "(\<forall>d iv n. phase iv = Connected \<and> \<not> fst (pg_try_advisory_lock (session_of iv) d) \<longrightarrow>
        step True n d iv
          = (d, iv\<lparr>phase := Returned \<lparr>ok = True, skipped = True,
                                     reason = Some ''lock_unavailable'', updated = 0\<rparr>\<rparr>))
     \<and> (\<forall>d iv n r answered. phase iv = Returned r \<longrightarrow> step answered n d iv = (d, iv))
     \<and> \<not> (in_locked_section (first_inv (run es (start a b)))
           \<and> in_locked_section (second_inv (run es (start a b))))
     \<and> (in_locked_section (first_inv (run es (start a b)))
          \<and> phase (second_inv (run es (start a b))) = Connected \<longrightarrow>
          reports_skipped (second_inv (step_system (Second, True, n) (run es (start a b))))
          \<and> database_of (step_system (Second, True, n) (run es (start a b)))
              = database_of (run es (start a b)))
     \<and> (in_locked_section (second_inv (run es (start a b)))
          \<and> phase (first_inv (run es (start a b))) = Connected \<longrightarrow>
          reports_skipped (first_inv (step_system (First, True, n) (run es (start a b))))
          \<and> database_of (step_system (First, True, n) (run es (start a b)))
              = database_of (run es (start a b)))
     \<and> (reports_skipped (first_inv (run es (start a b))) \<longrightarrow>
          a \<notin> set (score_writes (database_of (run es (start a b)))))
     \<and> (reports_skipped (second_inv (run es (start a b))) \<longrightarrow>
          b \<notin> set (score_writes (database_of (run es (start a b)))))
     \<and> \<not> (reports_skipped (first_inv (run es (start a b)))
           \<and> reports_skipped (second_inv (run es (start a b))))
     \<and> (\<forall>r. phase (first_inv (run es (start a b))) = Returned r \<longrightarrow>
            reports_skipped (first_inv (run es (start a b)))
            \<or> (ok r \<and> \<not> skipped r \<and> a \<in> set (score_writes (database_of (run es (start a b))))))
     \<and> (\<forall>r. phase (second_inv (run es (start a b))) = Returned r \<longrightarrow>
            reports_skipped (second_inv (run es (start a b)))
            \<or> (ok r \<and> \<not> skipped r \<and> b \<in> set (score_writes (database_of (run es (start a b))))))"
proof -
  define s where "s = run es (start a b)"
  have inv: "lock_invariant s"
    unfolding s_def by (rule lock_invariant_run[OF lock_invariant_start[OF assms]])
  note I = inv[unfolded lock_invariant_def pair_invariant_def side_invariant_def]
  have sa: "session_of (first_inv s) = a" and sb: "session_of (second_inv s) = b"
    unfolding s_def using run_sessions[of es "start a b"] by (simp_all add: start_def)
  have ne: "session_of (first_inv s) \<noteq> session_of (second_inv s)"
    using I by simp
  have 1: "\<forall>d iv n. phase iv = Connected \<and> \<not> fst (pg_try_advisory_lock (session_of iv) d) \<longrightarrow>
        step True n d iv
          = (d, iv\<lparr>phase := Returned \<lparr>ok = True, skipped = True,
                                     reason = Some ''lock_unavailable'', updated = 0\<rparr>\<rparr>)"
    using step_turned_away by blast
  have 2: "\<forall>d iv n r answered. phase iv = Returned r \<longrightarrow> step answered n d iv = (d, iv)"
    using step_finished by blast
  have 3: "\<not> (in_locked_section (first_inv s) \<and> in_locked_section (second_inv s))"
    using I ne by auto
  have 4: "reports_skipped (second_inv (step_system (Second, True, n) s))
          \<and> database_of (step_system (Second, True, n) s) = database_of s"
    if h: "in_locked_section (first_inv s) \<and> phase (second_inv s) = Connected"
  proof -
    have "advisory_lock (database_of s) = Some (session_of (first_inv s), 1)"
      using I h by auto
    then have "\<not> fst (pg_try_advisory_lock (session_of (second_inv s)) (database_of s))"
      using ne by (simp add: pg_try_advisory_lock_def)
    then have "step True n (database_of s) (second_inv s)
       = (database_of s, (second_inv s)\<lparr>phase := Returned \<lparr>ok = True, skipped = True,
                                     reason = Some ''lock_unavailable'', updated = 0\<rparr>\<rparr>)"
      using h by (intro step_turned_away) auto
    then show ?thesis
      by (simp add: step_system_def reports_skipped_def)
  qed
  have 5: "reports_skipped (first_inv (step_system (First, True, n) s))
          \<and> database_of (step_system (First, True, n) s) = database_of s"
    if h: "in_locked_section (second_inv s) \<and> phase (first_inv s) = Connected"
  proof -
    have "advisory_lock (database_of s) = Some (session_of (second_inv s), 1)"
      using I h by auto
    then have "\<not> fst (pg_try_advisory_lock (session_of (first_inv s)) (database_of s))"
      using ne by (simp add: pg_try_advisory_lock_def)
    then have "step True n (database_of s) (first_inv s)
       = (database_of s, (first_inv s)\<lparr>phase := Returned \<lparr>ok = True, skipped = True,
                                     reason = Some ''lock_unavailable'', updated = 0\<rparr>\<rparr>)"
      using h by (intro step_turned_away) auto
    then show ?thesis
      by (simp add: step_system_def reports_skipped_def)
  qed
  have 6: "reports_skipped (first_inv s) \<longrightarrow> a \<notin> set (score_writes (database_of s))"
    using I sa by (auto simp: has_scored_iff reports_skipped_def)
  have 7: "reports_skipped (second_inv s) \<longrightarrow> b \<notin> set (score_writes (database_of s))"
    using I sb by (auto simp: has_scored_iff reports_skipped_def)
  have 8: "\<not> (reports_skipped (first_inv s) \<and> reports_skipped (second_inv s))"
    using I by (auto simp: past_lock_def)
  have 9: "\<forall>r. phase (first_inv s) = Returned r \<longrightarrow>
            reports_skipped (first_inv s)
            \<or> (ok r \<and> \<not> skipped r \<and> a \<in> set (score_writes (database_of s)))"
    using I sa by (auto simp: has_scored_iff)
  have 10: "\<forall>r. phase (second_inv s) = Returned r \<longrightarrow>
            reports_skipped (second_inv s)
            \<or> (ok r \<and> \<not> skipped r \<and> b \<in> set (score_writes (database_of s)))"
    using I sb by (auto simp: has_scored_iff)
  show ?thesis
    using 1 2 3 4 5 6 7 8 9 10 unfolding s_def by blast
qed

theorem lock_protocol_witness:
  "(1::nat) \<noteq> 2
   \<and> phase (first_inv (run [(First, True, 7), (Second, True, 4)] (start 1 2))) = Locked
   \<and> reports_skipped (second_inv (run [(First, True, 7), (Second, True, 4)] (start 1 2)))
   \<and> 2 \<notin> set (score_writes (database_of
            (run [(First, True, 7), (Second, True, 4), (First, True, 7), (First, True, 7)]
               (start 1 2))))
   \<and> phase (first_inv
        (run [(First, True, 7), (Second, True, 4), (First, True, 7), (First, True, 7)]
               (start 1 2)))
       = Returned \<lparr>ok = True, skipped = False, reason = None, updated = 7\<rparr>
   \<and> score_writes (database_of
        (run [(First, True, 7), (Second, True, 4), (First, True, 7), (First, True, 7)]
               (start 1 2))) = [1]"
proof -
  have ne: "(1::nat) \<noteq> 2"
    by simp
  have p1: "phase (first_inv (run [(First, True, 7)] (start 1 2))) = Locked"
    and p2: "phase (second_inv (run [(First, True, 7)] (start 1 2))) = Connected"
    by (simp_all add: run_def step_system_def step_def start_def pg_try_advisory_lock_def
      pg_advisory_unlock_def)
  have l: "in_locked_section (first_inv (run [(First, True, 7)] (start 1 2)))"
    using p1 by (simp add: in_locked_section_def)
  have r: "run [(First, True, 7), (Second, True, 4)] (start 1 2)
      = step_system (Second, True, 4) (run [(First, True, 7)] (start 1 2))"
    by (simp add: run_def)
  have a: "reports_skipped (second_inv (run [(First, True, 7), (Second, True, 4)] (start 1 2)))"
    unfolding r using lock_protocol[OF ne, of "[(First, True, 7)]" 4] l p2 by blast
  have a': "phase (first_inv (run [(First, True, 7), (Second, True, 4)] (start 1 2))) = Locked"
    by (simp add: run_def step_system_def step_def start_def pg_try_advisory_lock_def
      pg_advisory_unlock_def)
  have sk: "reports_skipped (second_inv
      (run [(First, True, 7), (Second, True, 4), (First, True, 7), (First, True, 7)] (start 1 2)))"
    by (simp add: run_def step_system_def step_def start_def reports_skipped_def
      pg_try_advisory_lock_def pg_advisory_unlock_def)
  have b: "2 \<notin> set (score_writes (database_of
            (run [(First, True, 7), (Second, True, 4), (First, True, 7), (First, True, 7)]
               (start 1 2))))"
    using lock_protocol[OF ne,
        of "[(First, True, 7), (Second, True, 4), (First, True, 7), (First, True, 7)]" 0] sk
    by blast
  have c: "phase (first_inv
        (run [(First, True, 7), (Second, True, 4), (First, True, 7), (First, True, 7)]
               (start 1 2)))
       = Returned \<lparr>ok = True, skipped = False, reason = None, updated = 7\<rparr>"
    and d: "score_writes (database_of
        (run [(First, True, 7), (Second, True, 4), (First, True, 7), (First, True, 7)]
               (start 1 2))) = [1]"
    by (simp_all add: run_def step_system_def step_def start_def pg_try_advisory_lock_def
      pg_advisory_unlock_def)
  from ne a' a b c d show ?thesis
    by blast
qed


end
